theory Spec2Isabelle
  imports Complex_Main "HOL-Library.AList"
begin

section \<open>Python values used by the coordinator\<close>

text \<open>
  The exceptions the coordinator of \<^verbatim>\<open>server.py\<close> can raise, as values. The first seven are
  the Python exception classes met on its paths (\<^verbatim>\<open>ValueError\<close> is what numpy raises,
  \<^verbatim>\<open>RuntimeError\<close> what a strict \<^verbatim>\<open>load_state_dict\<close> raises). The last two are the error
  kinds the design document names; no definition below ever builds them.
\<close>

datatype error =
    IndexError | KeyError | ValueError | ZeroDivisionError
  | AssertionError | AttributeError | RuntimeError
  | InvalidConfiguration | StateShapeMismatch

text \<open>
  A \<^verbatim>\<open>state_dict\<close> is an ordered dictionary from parameter names to tensors: an
  association list, first binding first. Assignment to a key is \<^const>\<open>AList.update\<close>
  (an existing key keeps its place, a new key goes last), lookup is \<^const>\<open>map_of\<close>.
  A tensor is a value of an arbitrary type with \<open>+\<close> and \<open>*\<close>; no law of arithmetic is
  assumed of them unless a theorem says so, and tensor shapes are not modelled.
\<close>

type_synonym 'a state_dict = "(string \<times> 'a) list"

definition ebind :: "error + 'a \<Rightarrow> ('a \<Rightarrow> error + 'b) \<Rightarrow> error + 'b" where
  \<comment> \<open>sequencing: a raised exception ends the computation\<close>
  "ebind r f = (case r of Inl e \<Rightarrow> Inl e | Inr x \<Rightarrow> f x)"

definition attr :: "'a option \<Rightarrow> error + 'a" where
  \<comment> \<open>reading an attribute that may not have been set yet\<close>
  "attr a = (case a of None \<Rightarrow> Inl AttributeError | Some v \<Rightarrow> Inr v)"

definition keys :: "'a state_dict \<Rightarrow> string list" where
  "keys d = map fst d"

definition getitem :: "'a state_dict \<Rightarrow> string \<Rightarrow> error + 'a" where
  \<comment> \<open>\<^verbatim>\<open>d[key]\<close>\<close>
  "getitem d key = (case map_of d key of None \<Rightarrow> Inl KeyError | Some v \<Rightarrow> Inr v)"

definition norm_index :: "nat \<Rightarrow> int \<Rightarrow> nat option" where
  \<comment> \<open>the position a Python index denotes in a sequence of \<open>n\<close> items\<close>
  "norm_index n i =
     (if 0 \<le> i \<and> i < int n then Some (nat i)
      else if - int n \<le> i \<and> i < 0 then Some (nat (int n + i))
      else None)"

definition list_getitem :: "'a list \<Rightarrow> int \<Rightarrow> error + 'a" where
  \<comment> \<open>\<^verbatim>\<open>xs[i]\<close>\<close>
  "list_getitem xs i =
     (case norm_index (length xs) i of None \<Rightarrow> Inl IndexError | Some j \<Rightarrow> Inr (xs ! j))"

definition py_int :: "real \<Rightarrow> int" where
  \<comment> \<open>\<^verbatim>\<open>int(x)\<close> of a float, and torch's conversion of a float to an integer dtype:
      truncation towards zero\<close>
  "py_int x = (if 0 \<le> x then \<lfloor>x\<rfloor> else \<lceil>x\<rceil>)"

text \<open>
  torch's \<^verbatim>\<open>Module.load_state_dict(new)\<close> with its default \<^verbatim>\<open>strict=True\<close>: missing or
  unexpected keys raise; otherwise every tensor of the module receives, by \<^verbatim>\<open>copy_\<close>, the
  value stored under its name, converted to the tensor's own dtype. \<open>cast k\<close> is that
  conversion for the tensor named \<open>k\<close>: the identity where the value already has the
  tensor's dtype, truncation of a float value for an integer buffer. The comparison of
  the two tensors' sizes is not modelled, as shapes are not.
\<close>

definition load_state_dict ::
  "(string \<Rightarrow> 'a \<Rightarrow> 'a) \<Rightarrow> 'a state_dict \<Rightarrow> 'a state_dict \<Rightarrow> error + 'a state_dict" where
  "load_state_dict cast current new =
     (if set (keys new) = set (keys current)
      then Inr (map (\<lambda>(k, old). (k, case map_of new k of None \<Rightarrow> old | Some v \<Rightarrow> cast k v))
             current)
      else Inl RuntimeError)"

section \<open>Clients and the coordinator\<close>

text \<open>
  Of a client the coordinator reads \<^verbatim>\<open>client.model.state_dict()\<close> and \<^verbatim>\<open>len(client)\<close>.
\<close>

record 'a client =
  client_model :: "'a state_dict"
  client_len :: nat

text \<open>
  Modelled from the spec: \<^verbatim>\<open>Client.update_model\<close> lives in \<^verbatim>\<open>client.py\<close>, which is not
  among the sources. The design document says that the targeted session's received
  state is overwritten, and that an export right after a transmission returns the
  transmitted state unchanged.
\<close>

definition update_model :: "('a, 'm) client_scheme \<Rightarrow> 'a state_dict \<Rightarrow> ('a, 'm) client_scheme" where
  "update_model c g = c\<lparr>client_model := g\<rparr>"

text \<open>
  Of the dataset bundle the coordinator reads the two networks the global model is
  built from. A network is identified with its \<^verbatim>\<open>state_dict\<close>.
\<close>

record 'a ds_bundle =
  featurizer :: "'a state_dict"
  classifier :: "'a state_dict"

datatype event = Broadcast | Targeted "int list" | Checkpoint nat

text \<open>
  The fields of \<^verbatim>\<open>FedAvg\<close> the modelled methods touch. \<^verbatim>\<open>self.model\<close> does not exist
  before \<^verbatim>\<open>setup_model\<close> has run (\<open>None\<close>; reading it then is an \<^verbatim>\<open>AttributeError\<close>).
  \<^verbatim>\<open>self.num_clients\<close> is always \<^verbatim>\<open>len(self.clients)\<close> (both are set together, in
  \<^verbatim>\<open>__init__\<close> and in \<^verbatim>\<open>register_clients\<close>), so it is not a field of its own.
  \<open>trace\<close> is not a field of the source: it records the transmissions and the
  checkpoints the coordinator performs, in order. \<open>dtype_cast\<close> is not one either: it
  gives, for each parameter name, the conversion to the dtype of the global model's
  tensor of that name, which the network's architecture fixes. \<^verbatim>\<open>self.fraction\<close> is a
  Python float; \<open>fraction\<close> is the real number it denotes.
\<close>

record ('a, 'd) server =
  ds_bundle :: "'a ds_bundle"
  clients :: "'a client list"
  num_rounds :: nat
  fraction :: real
  test_dataloader :: "(string \<times> 'd) list"
  round_no :: int
  model :: "'a state_dict option"
  dtype_cast :: "string \<Rightarrow> 'a \<Rightarrow> 'a"
  trace :: "event list"

abbreviation num_clients :: "('a, 'd) server \<Rightarrow> nat" where
  "num_clients s \<equiv> length (clients s)"

section \<open>Aggregation (\<^verbatim>\<open>FedAvg.aggregate\<close>)\<close>

text \<open>
  The inner loop \<^verbatim>\<open>for key in self.model.state_dict().keys()\<close> of iteration \<open>it\<close>.
  Python evaluates \<^verbatim>\<open>averaged_weights[key] += e\<close> by reading \<^verbatim>\<open>averaged_weights[key]\<close>
  first, then \<open>e\<close>, left operand before right.
\<close>

fun aggregate_keys ::
  "nat \<Rightarrow> 'a::{plus,times} list \<Rightarrow> 'a state_dict \<Rightarrow> string list \<Rightarrow> 'a state_dict
    \<Rightarrow> error + 'a state_dict" where
  "aggregate_keys it coefficients local_weights [] averaged_weights = Inr averaged_weights"
| "aggregate_keys it coefficients local_weights (key # rest) averaged_weights =
     (if it = 0 then
        ebind (list_getitem coefficients (int it)) (\<lambda>c.
        ebind (getitem local_weights key) (\<lambda>w.
          aggregate_keys it coefficients local_weights rest
            (AList.update key (c * w) averaged_weights)))
      else
        ebind (getitem averaged_weights key) (\<lambda>acc.
        ebind (list_getitem coefficients (int it)) (\<lambda>c.
        ebind (getitem local_weights key) (\<lambda>w.
          aggregate_keys it coefficients local_weights rest
            (AList.update key (acc + c * w) averaged_weights)))))"

text \<open>The outer loop \<^verbatim>\<open>for it, idx in enumerate(sampled_client_indices)\<close>.\<close>

fun aggregate_loop ::
  "'a::{plus,times} state_dict option \<Rightarrow> ('a, 'm) client_scheme list \<Rightarrow> 'a list \<Rightarrow> nat \<Rightarrow> int list
    \<Rightarrow> 'a state_dict \<Rightarrow> error + 'a state_dict" where
  "aggregate_loop m cs coefficients it [] averaged_weights = Inr averaged_weights"
| "aggregate_loop m cs coefficients it (idx # rest) averaged_weights =
     ebind (list_getitem cs idx) (\<lambda>c.
     ebind (attr m) (\<lambda>g.
     ebind (aggregate_keys it coefficients (client_model c) (keys g) averaged_weights)
       (\<lambda>averaged_weights'.
          aggregate_loop m cs coefficients (Suc it) rest averaged_weights')))"

definition aggregate ::
  "('a::{plus,times}, 'd) server \<Rightarrow> int list \<Rightarrow> 'a list \<Rightarrow> error + ('a, 'd) server" where
  "aggregate s sampled_client_indices coefficients =
     ebind (aggregate_loop (model s) (clients s) coefficients 0 sampled_client_indices [])
       (\<lambda>averaged_weights.
     ebind (attr (model s)) (\<lambda>g.
     ebind (load_state_dict (dtype_cast s) g averaged_weights) (\<lambda>g'.
       Inr (s\<lparr>model := Some g'\<rparr>))))"

section \<open>Sampling (\<^verbatim>\<open>FedAvg.sample_clients\<close>)\<close>

text \<open>
  \<^verbatim>\<open>self.fraction * self.num_clients\<close> is a product of floats: the exact product, rounded
  to a double. The rounding is the parameter \<open>rnd\<close>; the conversion of the client count
  to a float is exact for every count below \<open>2 ^ 53\<close>. \<^verbatim>\<open>int\<close> then truncates the
  rounded product, so the sample size can differ from the floor of the exact product.
\<close>

text \<open>
  \<^verbatim>\<open>np.random.choice(a, size, replace=False)\<close>: numpy refuses an empty population (unless
  no sample is asked for) and a sample larger than the population; otherwise it draws
  a permutation of the positions of \<open>a\<close> and returns the items at its first \<open>size\<close>
  positions. The permutation drawn is the argument \<open>perm\<close>; a well-formed draw
  satisfies \<open>is_permutation (length a) perm\<close>.
\<close>

definition is_permutation :: "nat \<Rightarrow> nat list \<Rightarrow> bool" where
  "is_permutation n perm = (sort perm = [0..<n])"

definition random_choice :: "'a list \<Rightarrow> nat \<Rightarrow> nat list \<Rightarrow> error + 'a list" where
  "random_choice a size' perm =
     (if a = [] \<and> 0 < size' then Inl ValueError
      else if length a < size' then Inl ValueError
      else Inr (map (\<lambda>i. a ! i) (take size' perm)))"

definition sample_clients ::
  "(real \<Rightarrow> real) \<Rightarrow> ('a, 'd) server \<Rightarrow> nat list \<Rightarrow> error + int list" where
  "sample_clients rnd s perm =
     (let num_sampled_clients = max (py_int (rnd (fraction s * real (num_clients s)))) 1 in
      ebind (random_choice (map int [0..<num_clients s]) (nat num_sampled_clients) perm)
        (\<lambda>chosen. Inr (sort chosen)))"

section \<open>Transmission (\<^verbatim>\<open>FedAvg.transmit_model\<close>)\<close>

fun transmit_all ::
  "'a state_dict option \<Rightarrow> 'a client list \<Rightarrow> error + 'a client list" where
  "transmit_all m [] = Inr []"
| "transmit_all m (c # rest) =
     ebind (attr m) (\<lambda>g.
     ebind (transmit_all m rest) (\<lambda>rest'. Inr (update_model c g # rest')))"

fun transmit_selected ::
  "'a state_dict option \<Rightarrow> 'a client list \<Rightarrow> int list \<Rightarrow> error + 'a client list" where
  "transmit_selected m cs [] = Inr cs"
| "transmit_selected m cs (idx # rest) =
     (case norm_index (length cs) idx of
        None \<Rightarrow> Inl IndexError
      | Some j \<Rightarrow>
          ebind (attr m) (\<lambda>g. transmit_selected m (cs[j := update_model (cs ! j) g]) rest))"

definition transmit_model ::
  "('a, 'd) server \<Rightarrow> int list option \<Rightarrow> error + ('a, 'd) server" where
  "transmit_model s sampled_client_indices =
     (case sampled_client_indices of
        None \<Rightarrow>
          ebind (transmit_all (model s) (clients s))
            (\<lambda>cs. Inr (s\<lparr>clients := cs, trace := trace s @ [Broadcast]\<rparr>))
      | Some idxs \<Rightarrow>
          ebind (transmit_selected (model s) (clients s) idxs)
            (\<lambda>cs. Inr (s\<lparr>clients := cs, trace := trace s @ [Targeted idxs]\<rparr>)))"

section \<open>Local updates (\<^verbatim>\<open>FedAvg.update_clients\<close>)\<close>

text \<open>
  \<^verbatim>\<open>Client.fit\<close> is the learner's local training, opaque to the coordinator: the
  parameter \<open>client_fit\<close>. The loop is the sequential branch (\<^verbatim>\<open>mp_flag\<close> false); the
  thread pool of the other branch maps the same function over the same indices and
  sums the sizes it returns.
\<close>

fun update_clients_loop ::
  "('a client \<Rightarrow> 'a client) \<Rightarrow> 'a client list \<Rightarrow> int list \<Rightarrow> nat
    \<Rightarrow> error + ('a client list \<times> nat)" where
  "update_clients_loop client_fit cs [] selected_total_size = Inr (cs, selected_total_size)"
| "update_clients_loop client_fit cs (idx # rest) selected_total_size =
     (case norm_index (length cs) idx of
        None \<Rightarrow> Inl IndexError
      | Some j \<Rightarrow>
          (let cs' = cs[j := client_fit (cs ! j)];
               client_size = client_len (cs' ! j)
           in update_clients_loop client_fit cs' rest (selected_total_size + client_size)))"

definition update_clients ::
  "('a client \<Rightarrow> 'a client) \<Rightarrow> ('a, 'd) server \<Rightarrow> int list \<Rightarrow> error + (('a, 'd) server \<times> nat)" where
  "update_clients client_fit s sampled_client_indices =
     ebind (update_clients_loop client_fit (clients s) sampled_client_indices 0)
       (\<lambda>(cs, selected_total_size). Inr (s\<lparr>clients := cs\<rparr>, selected_total_size))"

section \<open>One round (\<^verbatim>\<open>FedAvg.train_federated_model\<close>)\<close>

text \<open>
  The list comprehension \<^verbatim>\<open>[len(self.clients[idx]) / selected_total_size for idx in ...]\<close>.
  Python's \<^verbatim>\<open>/\<close> on two integers raises \<^verbatim>\<open>ZeroDivisionError\<close> for a zero divisor and
  otherwise returns the float nearest to the quotient; the model returns the quotient
  itself, a real number.
\<close>

fun mixing_coefficients :: "'a client list \<Rightarrow> nat \<Rightarrow> int list \<Rightarrow> error + real list" where
  "mixing_coefficients cs selected_total_size [] = Inr []"
| "mixing_coefficients cs selected_total_size (idx # rest) =
     ebind (list_getitem cs idx) (\<lambda>c.
       if selected_total_size = 0 then Inl ZeroDivisionError
       else ebind (mixing_coefficients cs selected_total_size rest)
              (\<lambda>coefs. Inr (real (client_len c) / real selected_total_size # coefs)))"

definition train_federated_model ::
  "(real \<Rightarrow> real) \<Rightarrow> (real client \<Rightarrow> real client) \<Rightarrow> nat list \<Rightarrow> (real, 'd) server
    \<Rightarrow> error + (real, 'd) server" where
  "train_federated_model rnd client_fit perm s =
     ebind (sample_clients rnd s perm) (\<lambda>sampled_client_indices.
     ebind (transmit_model s (Some sampled_client_indices)) (\<lambda>s1.
     ebind (update_clients client_fit s1 sampled_client_indices) (\<lambda>(s2, selected_total_size).
     ebind (mixing_coefficients (clients s2) selected_total_size sampled_client_indices)
       (\<lambda>coefs. aggregate s2 sampled_client_indices coefs))))"

section \<open>Model setup (\<^verbatim>\<open>FedAvg.setup_model\<close>)\<close>

text \<open>
  The names of \<^verbatim>\<open>torch.nn\<close> the coordinator looks up. \<^verbatim>\<open>nn.DataParallel(module)\<close> wraps a
  module, which puts \<^verbatim>\<open>module.\<close> before each of its parameter names; any other name
  looked up here is not an attribute of \<^verbatim>\<open>torch.nn\<close>. \<^verbatim>\<open>nn.Sequential(f, c)\<close> names its
  children \<^verbatim>\<open>0\<close> and \<^verbatim>\<open>1\<close>.
\<close>

definition prefix_keys :: "string \<Rightarrow> 'a state_dict \<Rightarrow> 'a state_dict" where
  "prefix_keys p d = map (\<lambda>(k, v). (p @ k, v)) d"

definition nn :: "string \<Rightarrow> error + ('a state_dict \<Rightarrow> 'a state_dict)" where
  "nn name =
     (if name = ''DataParallel'' then Inr (prefix_keys ''module.'') else Inl AttributeError)"

definition Sequential :: "'a state_dict \<Rightarrow> 'a state_dict \<Rightarrow> 'a state_dict" where
  "Sequential f c = prefix_keys ''0.'' f @ prefix_keys ''1.'' c"

text \<open>
  \<open>model_file\<close> is \<open>None\<close> when the argument is empty or \<^verbatim>\<open>None\<close>, and otherwise holds
  the \<^verbatim>\<open>state_dict\<close> that \<^verbatim>\<open>torch.load(model_file)\<close> reads; \<open>start_epoch\<close> is the integer
  \<^verbatim>\<open>int(start_epoch)\<close>. \<^verbatim>\<open>self.featurizer\<close> and \<^verbatim>\<open>self.classifier\<close> (here \<open>featurizer'\<close> and
  \<open>classifier'\<close>) are read by no modelled method and are not kept in the record.
\<close>

definition setup_model ::
  "('a, 'd) server \<Rightarrow> 'a state_dict option \<Rightarrow> int \<Rightarrow> error + ('a, 'd) server" where
  "setup_model s model_file start_epoch =
     (if round_no s \<noteq> 0 then Inl AssertionError
      else
        ebind (nn ''DataParallel'') (\<lambda>wrap_featurizer.
        ebind (nn ''DataParallel'') (\<lambda>wrap_classifier.
        ebind (nn ''DataParallel'') (\<lambda>wrap.
          (let featurizer' = wrap_featurizer (featurizer (ds_bundle s));
               classifier' = wrap_classifier (classifier (ds_bundle s));
               m = wrap (Sequential (featurizer (ds_bundle s)) (classifier (ds_bundle s)))
           in
           case model_file of
             None \<Rightarrow> Inr (s\<lparr>model := Some m\<rparr>)
           | Some loaded \<Rightarrow>
               ebind (load_state_dict (dtype_cast s) m loaded)
                 (\<lambda>m'. Inr (s\<lparr>round_no := start_epoch, model := Some m'\<rparr>)))))))"

section \<open>The whole run (\<^verbatim>\<open>FedAvg.fit\<close>)\<close>

text \<open>
  \<^verbatim>\<open>evaluate_global_model\<close> runs the network over a holdout loader and hands the
  predictions to the dataset's metric; both are outside the coordinator. The parameter
  \<open>evaluate\<close> gives, for a global state and a loader, the list
  \<^verbatim>\<open>list(metric[0].values())\<close>; \<^verbatim>\<open>[-1]\<close> of an empty list raises.
\<close>

fun evaluate_testsets ::
  "('a state_dict \<Rightarrow> 'd \<Rightarrow> 'v list) \<Rightarrow> 'a state_dict option \<Rightarrow> (string \<times> 'd) list
    \<Rightarrow> error + 'v list" where
  "evaluate_testsets evaluate m [] = Inr []"
| "evaluate_testsets evaluate m ((name, dataloader) # rest) =
     ebind (attr m) (\<lambda>g.
       (let metric_values = evaluate g dataloader in
        if metric_values = [] then Inl IndexError
        else ebind (evaluate_testsets evaluate m rest)
               (\<lambda>row. Inr (last metric_values # row))))"

text \<open>
  \<^verbatim>\<open>save_model\<close> builds the checkpoint path from \<^verbatim>\<open>self.clients[0].name\<close> and writes the
  global state; the write itself is recorded in the trace.
\<close>

definition save_model :: "('a, 'd) server \<Rightarrow> nat \<Rightarrow> error + ('a, 'd) server" where
  "save_model s num_epoch =
     ebind (list_getitem (clients s) 0) (\<lambda>c.
     ebind (attr (model s)) (\<lambda>g.
       Inr (s\<lparr>trace := trace s @ [Checkpoint num_epoch]\<rparr>)))"

text \<open>
  The loop \<^verbatim>\<open>for r in range(self.num_rounds)\<close>. \<open>perm_of r\<close> is the permutation the
  random generator draws in iteration \<open>r\<close>.
\<close>

fun fit_rounds ::
  "(real \<Rightarrow> real) \<Rightarrow> (real client \<Rightarrow> real client) \<Rightarrow> (real state_dict \<Rightarrow> 'd \<Rightarrow> 'v list) \<Rightarrow> (nat \<Rightarrow> nat list)
    \<Rightarrow> nat list \<Rightarrow> (real, 'd) server \<Rightarrow> 'v list list
    \<Rightarrow> error + ((real, 'd) server \<times> 'v list list)" where
  "fit_rounds rnd client_fit evaluate perm_of [] s key_metric = Inr (s, key_metric)"
| "fit_rounds rnd client_fit evaluate perm_of (r # rest) s key_metric =
     ebind (train_federated_model rnd client_fit (perm_of r) (s\<lparr>round_no := round_no s + 1\<rparr>))
       (\<lambda>s1.
     ebind (evaluate_testsets evaluate (model s1) (test_dataloader s1)) (\<lambda>row.
     ebind (save_model s1 r) (\<lambda>s2.
       fit_rounds rnd client_fit evaluate perm_of rest s2 (key_metric @ [row]))))"

text \<open>
  \<^verbatim>\<open>np.argmax(key_metric, axis=0)\<close>: for each column the first row holding the column's
  maximum. The rows of \<^verbatim>\<open>key_metric\<close> all have one entry per holdout loader. An empty
  \<^verbatim>\<open>key_metric\<close> has nothing to take the maximum of, which numpy refuses.
\<close>

definition argmax :: "'v::linorder list \<Rightarrow> nat" where
  "argmax xs = length (takeWhile (\<lambda>x. x \<noteq> Max (set xs)) xs)"

definition column :: "'v list list \<Rightarrow> nat \<Rightarrow> 'v list" where
  "column rows j = map (\<lambda>row. row ! j) rows"

definition np_argmax_axis0 :: "'v::linorder list list \<Rightarrow> error + nat list" where
  "np_argmax_axis0 rows =
     (case rows of
        [] \<Rightarrow> Inl ValueError
      | row # _ \<Rightarrow> Inr (map (\<lambda>j. argmax (column rows j)) [0..<length row]))"

text \<open>
  The result of \<open>fit\<close> is the coordinator after the run together with the three
  numbers the final \<^verbatim>\<open>print\<close> shows. Unpacking into
  \<^verbatim>\<open>in_max_idx, lodo_max_idx, _, _\<close> raises \<^verbatim>\<open>ValueError\<close> unless there are exactly four
  columns.
\<close>

definition fit ::
  "(real \<Rightarrow> real) \<Rightarrow> (real client \<Rightarrow> real client) \<Rightarrow> (real state_dict \<Rightarrow> 'd \<Rightarrow> 'v::linorder list) \<Rightarrow> (nat \<Rightarrow> nat list)
    \<Rightarrow> (real, 'd) server \<Rightarrow> error + ((real, 'd) server \<times> 'v \<times> 'v \<times> 'v)" where
  "fit rnd client_fit evaluate perm_of s =
     ebind (fit_rounds rnd client_fit evaluate perm_of [0..<num_rounds s] s [])
       (\<lambda>(s1, key_metric).
     ebind (np_argmax_axis0 key_metric) (\<lambda>best.
       (case best of
          [in_max_idx, lodo_max_idx, _, _] \<Rightarrow>
            (let printed = (key_metric ! in_max_idx ! 2, key_metric ! in_max_idx ! 3,
                            key_metric ! lodo_max_idx ! 3)
             in ebind (transmit_model s1 None) (\<lambda>s2. Inr (s2, printed)))
        | _ \<Rightarrow> Inl ValueError)))"

section \<open>The dual-model coordinator (\<^verbatim>\<open>FedADG\<close>)\<close>

text \<open>
  A client of the dual-model coordinator also exposes
  \<^verbatim>\<open>client.generator.state_dict()\<close>.
\<close>

record 'a adg_client = "'a client" +
  client_generator :: "'a state_dict"

text \<open>
  \<^verbatim>\<open>FedADG.setup_model\<close>. \<open>generator0\<close> is the state of the fresh
  \<^verbatim>\<open>GeneDistrNet(num_labels=...)\<close>, whose class lives outside the sources. The result
  pairs the coordinator with its \<^verbatim>\<open>self.generator\<close>.
\<close>

definition adg_setup_model ::
  "('a, 'd) server \<Rightarrow> 'a state_dict \<Rightarrow> 'a state_dict option \<Rightarrow> int
    \<Rightarrow> error + (('a, 'd) server \<times> 'a state_dict)" where
  "adg_setup_model s generator0 model_file start_epoch =
     (if round_no s \<noteq> 0 then Inl AssertionError
      else
        ebind (nn ''DataParallel'') (\<lambda>wrap_featurizer.
        ebind (nn ''DataParallel'') (\<lambda>wrap_classifier.
        ebind (nn ''DataParalle'') (\<lambda>wrap_generator.
        ebind (nn ''DataParallel'') (\<lambda>wrap.
          (let featurizer' = wrap_featurizer (featurizer (ds_bundle s));
               classifier' = wrap_classifier (classifier (ds_bundle s));
               generator = wrap_generator generator0;
               m = wrap (Sequential (featurizer (ds_bundle s)) (classifier (ds_bundle s)))
           in case model_file of
                None \<Rightarrow> Inr (s\<lparr>model := Some m\<rparr>, generator)
              | Some loaded \<Rightarrow>
                  ebind (load_state_dict (dtype_cast s) m loaded)
                    (\<lambda>m'. Inr (s\<lparr>round_no := start_epoch, model := Some m'\<rparr>, generator))))))))"

text \<open>
  \<^verbatim>\<open>FedADG.aggregate\<close>: one loop over the keys of \<^verbatim>\<open>self.model.state_dict()\<close> feeds both
  accumulators.
\<close>

fun adg_aggregate_keys ::
  "nat \<Rightarrow> 'a::{plus,times} list \<Rightarrow> 'a state_dict \<Rightarrow> 'a state_dict \<Rightarrow> string list
    \<Rightarrow> 'a state_dict \<times> 'a state_dict \<Rightarrow> error + ('a state_dict \<times> 'a state_dict)" where
  "adg_aggregate_keys it coefficients local_weights local_generator_weights [] acc = Inr acc"
| "adg_aggregate_keys it coefficients local_weights local_generator_weights (key # rest)
       (averaged_weights, averaged_generator_weights) =
     (if it = 0 then
        ebind (list_getitem coefficients (int it)) (\<lambda>c.
        ebind (getitem local_weights key) (\<lambda>w.
        ebind (list_getitem coefficients (int it)) (\<lambda>c'.
        ebind (getitem local_generator_weights key) (\<lambda>gw.
          adg_aggregate_keys it coefficients local_weights local_generator_weights rest
            (AList.update key (c * w) averaged_weights,
             AList.update key (c' * gw) averaged_generator_weights)))))
      else
        ebind (getitem averaged_weights key) (\<lambda>a.
        ebind (list_getitem coefficients (int it)) (\<lambda>c.
        ebind (getitem local_weights key) (\<lambda>w.
        ebind (getitem averaged_generator_weights key) (\<lambda>ga.
        ebind (list_getitem coefficients (int it)) (\<lambda>c'.
        ebind (getitem local_generator_weights key) (\<lambda>gw.
          adg_aggregate_keys it coefficients local_weights local_generator_weights rest
            (AList.update key (a + c * w) averaged_weights,
             AList.update key (ga + c' * gw) averaged_generator_weights))))))))"

fun adg_aggregate_loop ::
  "'a::{plus,times} state_dict option \<Rightarrow> 'a adg_client list \<Rightarrow> 'a list \<Rightarrow> nat \<Rightarrow> int list
    \<Rightarrow> 'a state_dict \<times> 'a state_dict \<Rightarrow> error + ('a state_dict \<times> 'a state_dict)" where
  "adg_aggregate_loop m cs coefficients it [] acc = Inr acc"
| "adg_aggregate_loop m cs coefficients it (idx # rest) acc =
     ebind (list_getitem cs idx) (\<lambda>c.
     ebind (list_getitem cs idx) (\<lambda>c'.
     ebind (attr m) (\<lambda>g.
     ebind (adg_aggregate_keys it coefficients (client_model c) (client_generator c') (keys g) acc)
       (\<lambda>acc'. adg_aggregate_loop m cs coefficients (Suc it) rest acc'))))"

text \<open>
  The arguments are the dtype conversions of the two networks, \<^verbatim>\<open>self.model\<close>,
  \<^verbatim>\<open>self.generator\<close> and \<^verbatim>\<open>self.clients\<close>; the result is
  the pair of states the two \<^verbatim>\<open>load_state_dict\<close> calls leave in \<^verbatim>\<open>self.model\<close> and
  \<^verbatim>\<open>self.generator\<close>.
\<close>

definition adg_aggregate ::
  "(string \<Rightarrow> 'a \<Rightarrow> 'a) \<Rightarrow> (string \<Rightarrow> 'a \<Rightarrow> 'a) \<Rightarrow> 'a::{plus,times} state_dict option
    \<Rightarrow> 'a state_dict option \<Rightarrow> 'a adg_client list \<Rightarrow> int list \<Rightarrow> 'a list
    \<Rightarrow> error + ('a state_dict \<times> 'a state_dict)" where
  "adg_aggregate cast generator_cast m generator cs sampled_client_indices coefficients =
     ebind (adg_aggregate_loop m cs coefficients 0 sampled_client_indices ([], []))
       (\<lambda>(averaged_weights, averaged_generator_weights).
     ebind (attr m) (\<lambda>g.
     ebind (load_state_dict cast g averaged_weights) (\<lambda>g'.
     ebind (attr generator) (\<lambda>gen.
     ebind (load_state_dict generator_cast gen averaged_generator_weights) (\<lambda>gen'.
       Inr (g', gen'))))))"

section \<open>Notions the properties are stated with\<close>

text \<open>
  \<open>valid_index xs i\<close>: \<^verbatim>\<open>xs[i]\<close> does not raise. \<open>exported s idx key\<close> is the value that
  the client at index \<open>idx\<close> exports under \<open>key\<close>, when both exist.
\<close>

definition valid_index :: "'x list \<Rightarrow> int \<Rightarrow> bool" where
  "valid_index xs i = (norm_index (length xs) i \<noteq> None)"

definition exported :: "('a, 'd) server \<Rightarrow> int \<Rightarrow> string \<Rightarrow> 'a option" where
  "exported s idx key =
     (case list_getitem (clients s) idx of Inl e \<Rightarrow> None | Inr c \<Rightarrow> map_of (client_model c) key)"

text \<open>\<open>exports_all s ks idx\<close>: the client at index \<open>idx\<close> exports every key of \<open>ks\<close>.\<close>

definition exports_all :: "('a, 'd) server \<Rightarrow> string list \<Rightarrow> int \<Rightarrow> bool" where
  "exports_all s ks idx = list_all (\<lambda>k. exported s idx k \<noteq> None) ks"

section \<open>Concrete inputs\<close>

text \<open>
  Four clients with sample counts 10, 20, 30 and 40 and a two-parameter model; the
  parameter values of client \<open>idx\<close> are \<open>demo_vals idx\<close>.
\<close>

definition mk_client :: "real \<Rightarrow> real \<Rightarrow> nat \<Rightarrow> real client" where
  "mk_client w b n = \<lparr>client_model = [(''w'', w), (''b'', b)], client_len = n\<rparr>"

definition demo_server :: "(real, nat) server" where
  "demo_server = \<lparr>ds_bundle = \<lparr>featurizer = [(''w'', 0)], classifier = [(''b'', 0)]\<rparr>,
     clients = [mk_client 1 2 10, mk_client 3 4 20, mk_client 5 6 30, mk_client 7 8 40],
     num_rounds = 1, fraction = 1/2,
     test_dataloader = [(''a'', 0), (''b'', 1), (''c'', 2), (''d'', 3)],
     round_no = 0, model = Some [(''w'', 0), (''b'', 0)], dtype_cast = (\<lambda>k v. v),
     trace = []\<rparr>"

definition demo_vals :: "int \<Rightarrow> string \<Rightarrow> real" where
  "demo_vals idx k = (if k = ''w'' then 2 * real_of_int idx + 1 else 2 * real_of_int idx + 2)"

text \<open>
  A coordinator whose only client exports a key the coordinator does not have, and one
  whose second client lacks a key of the coordinator.
\<close>

definition demo_extra_server :: "(real, nat) server" where
  "demo_extra_server = \<lparr>ds_bundle = \<lparr>featurizer = [], classifier = []\<rparr>,
     clients = [\<lparr>client_model = [(''w'', 5), (''extra'', 9)], client_len = 10\<rparr>],
     num_rounds = 1, fraction = 1, test_dataloader = [],
     round_no = 0, model = Some [(''w'', 0)], dtype_cast = (\<lambda>k v. v), trace = []\<rparr>"

definition demo_missing_server :: "(real, nat) server" where
  "demo_missing_server = \<lparr>ds_bundle = \<lparr>featurizer = [], classifier = []\<rparr>,
     clients = [\<lparr>client_model = [(''w'', 5), (''b'', 6)], client_len = 10\<rparr>,
                \<lparr>client_model = [(''w'', 7)], client_len = 20\<rparr>],
     num_rounds = 1, fraction = 1, test_dataloader = [],
     round_no = 0, model = Some [(''w'', 0), (''b'', 0)], dtype_cast = (\<lambda>k v. v),
     trace = []\<rparr>"

text \<open>
  \<open>round_to k\<close> rounds to the nearest multiple of \<open>2 ^ -k\<close>. On the reals from \<open>1/2\<close> to
  \<open>4\<close> the doubles are the multiples of \<open>2 ^ -53\<close> below \<open>1\<close>, of \<open>2 ^ -52\<close> below \<open>2\<close>
  and of \<open>2 ^ -51\<close> from there on; \<open>demo_round\<close> is the rounding to a double there
  (ties aside).
\<close>

definition round_to :: "nat \<Rightarrow> real \<Rightarrow> real" where
  "round_to k x = real_of_int (round (x * 2 ^ k)) / 2 ^ k"

definition demo_round :: "real \<Rightarrow> real" where
  "demo_round x =
     (if x < 1 then round_to 53 x else if x < 2 then round_to 52 x else round_to 51 x)"

text \<open>
  Five clients, and as fraction the double nearest to \<open>0.6\<close>, which is
  \<open>5404319552844595 / 2 ^ 53\<close>.
\<close>

definition demo_five_server :: "(real, nat) server" where
  "demo_five_server = \<lparr>ds_bundle = \<lparr>featurizer = [], classifier = []\<rparr>,
     clients = [mk_client 1 2 10, mk_client 3 4 10, mk_client 5 6 10, mk_client 7 8 10,
                mk_client 9 10 10],
     num_rounds = 1, fraction = 5404319552844595 / 9007199254740992, test_dataloader = [],
     round_no = 0, model = Some [(''w'', 0), (''b'', 0)], dtype_cast = (\<lambda>k v. v),
     trace = []\<rparr>"

text \<open>
  A global model with a float parameter \<open>w\<close> and an integer buffer \<open>n\<close> (such as the
  batch counter of a normalisation layer), and two clients.
\<close>

definition demo_counter_server :: "(real, nat) server" where
  "demo_counter_server = \<lparr>ds_bundle = \<lparr>featurizer = [], classifier = []\<rparr>,
     clients = [\<lparr>client_model = [(''w'', 4), (''n'', 1)], client_len = 10\<rparr>,
                \<lparr>client_model = [(''w'', 8), (''n'', 2)], client_len = 30\<rparr>],
     num_rounds = 1, fraction = 1, test_dataloader = [],
     round_no = 0, model = Some [(''w'', 0), (''n'', 0)],
     dtype_cast = (\<lambda>k v. if k = ''n'' then real_of_int (py_int v) else v),
     trace = []\<rparr>"

text \<open>A coordinator with a model and no registered client.\<close>

definition demo_empty_server :: "(real, nat) server" where
  "demo_empty_server = \<lparr>ds_bundle = \<lparr>featurizer = [], classifier = []\<rparr>,
     clients = [], num_rounds = 1, fraction = 1/2, test_dataloader = [],
     round_no = 0, model = Some [(''w'', 0)], dtype_cast = (\<lambda>k v. v), trace = []\<rparr>"

text \<open>
  Three clients of the dual-model coordinator: the primary model has the parameter
  \<open>w\<close>, the generator the parameter \<open>g\<close>.
\<close>

definition demo_adg_clients :: "real adg_client list" where
  "demo_adg_clients =
     [\<lparr>client_model = [(''w'', 3)], client_len = 10, client_generator = [(''g'', 30)]\<rparr>,
      \<lparr>client_model = [(''w'', 6)], client_len = 10, client_generator = [(''g'', 60)]\<rparr>,
      \<lparr>client_model = [(''w'', 9)], client_len = 10, client_generator = [(''g'', 90)]\<rparr>]"

text \<open>
  A local update that adds one to every parameter, and the coordinator \<open>demo_server\<close>
  after the transmission to the sampled clients \<open>0\<close> and \<open>2\<close> and after their local
  updates. \<open>demo_idle_server\<close> has two clients without any sample.
\<close>

definition demo_fit :: "real client \<Rightarrow> real client" where
  "demo_fit c = c\<lparr>client_model := map (\<lambda>(k, v). (k, v + 1)) (client_model c)\<rparr>"

definition demo_transmitted :: "(real, nat) server" where
  "demo_transmitted = demo_server\<lparr>
     clients := [mk_client 0 0 10, mk_client 3 4 20, mk_client 0 0 30, mk_client 7 8 40],
     trace := [Targeted [0, 2]]\<rparr>"

definition demo_updated :: "(real, nat) server" where
  "demo_updated = demo_server\<lparr>
     clients := [mk_client 1 1 10, mk_client 3 4 20, mk_client 1 1 30, mk_client 7 8 40],
     trace := [Targeted [0, 2]]\<rparr>"

definition demo_idle_server :: "(real, nat) server" where
  "demo_idle_server = demo_server\<lparr>clients := [mk_client 1 2 0, mk_client 3 4 0]\<rparr>"

definition demo_idle_transmitted :: "(real, nat) server" where
  "demo_idle_transmitted = demo_server\<lparr>
     clients := [mk_client 1 2 0, mk_client 0 0 0], trace := [Targeted [1]]\<rparr>"

definition demo_idle_updated :: "(real, nat) server" where
  "demo_idle_updated = demo_server\<lparr>
     clients := [mk_client 1 2 0, mk_client 1 1 0], trace := [Targeted [1]]\<rparr>"

text \<open>
  A metric with two values per holdout loader, the last one growing with the first
  parameter of the global state and with the loader; the draws of two rounds; and the
  coordinator \<open>demo_server\<close> configured for two rounds, with its state after them.
\<close>

definition demo_evaluate :: "real state_dict \<Rightarrow> nat \<Rightarrow> real list" where
  "demo_evaluate g d = [0, (case map_of g ''w'' of None \<Rightarrow> 0 | Some v \<Rightarrow> v) * real d]"

definition demo_perm_of :: "nat \<Rightarrow> nat list" where
  "demo_perm_of r = (if r = 0 then [2, 0, 3, 1] else [1, 3, 0, 2])"

definition demo_two_rounds :: "(real, nat) server" where
  "demo_two_rounds = demo_server\<lparr>num_rounds := 2\<rparr>"

definition demo_after_rounds :: "(real, nat) server" where
  "demo_after_rounds = demo_server\<lparr>
     clients := [mk_client 1 1 10, mk_client 2 2 20, mk_client 1 1 30, mk_client 2 2 40],
     num_rounds := 2, round_no := 2, model := Some [(''w'', 2), (''b'', 2)],
     trace := [Targeted [0, 2], Checkpoint 0, Targeted [1, 3], Checkpoint 1]\<rparr>"

text \<open>The coordinator \<open>demo_server\<close> with a single holdout loader, before and after its round.\<close>

definition demo_one_loader :: "(real, nat) server" where
  "demo_one_loader = demo_server\<lparr>test_dataloader := [(''a'', 1)]\<rparr>"

definition demo_one_loader_after :: "(real, nat) server" where
  "demo_one_loader_after = demo_server\<lparr>
     clients := [mk_client 1 1 10, mk_client 3 4 20, mk_client 1 1 30, mk_client 7 8 40],
     test_dataloader := [(''a'', 1)], round_no := 1, model := Some [(''w'', 1), (''b'', 1)],
     trace := [Targeted [0, 2], Checkpoint 0]\<rparr>"

section \<open>Sequencing and lookups\<close>

lemma ebind_Inl [simp]: "ebind (Inl e) f = Inl e"
  by (simp add: ebind_def)

lemma ebind_Inr [simp]: "ebind (Inr x) f = f x"
  by (simp add: ebind_def)

lemma attr_Some [simp]: "attr (Some v) = Inr v"
  by (simp add: attr_def)

lemma attr_None [simp]: "attr None = Inl AttributeError"
  by (simp add: attr_def)

lemma getitem_Some: "map_of d k = Some v \<Longrightarrow> getitem d k = Inr v"
  by (simp add: getitem_def)

lemma getitem_None: "map_of d k = None \<Longrightarrow> getitem d k = Inl KeyError"
  by (simp add: getitem_def)

lemma list_getitem_nat: "i < length xs \<Longrightarrow> list_getitem xs (int i) = Inr (xs ! i)"
  by (simp add: list_getitem_def norm_index_def)

lemma set_keys: "set (keys d) = dom (map_of d)"
  by (simp add: keys_def dom_map_of_conv_image_fst)

section \<open>Aggregation computes the weighted sum\<close>

lemma aggregate_keys_first:
  assumes "list_getitem coefs 0 = Inr c"
    and "\<forall>k\<in>set ks. map_of local k = Some (v k)"
  shows "\<exists>avg'. aggregate_keys 0 coefs local ks avg = Inr avg' \<and>
           map_of avg' = (\<lambda>k. if k \<in> set ks then Some (c * v k) else map_of avg k)"
  using assms
proof (induction ks arbitrary: avg)
  case Nil
  then show ?case by simp
next
  case (Cons key rest)
  from Cons.prems have loc: "getitem local key = Inr (v key)"
    by (simp add: getitem_Some)
  from Cons.IH [of "AList.update key (c * v key) avg"] Cons.prems
  obtain avg' where run: "aggregate_keys 0 coefs local rest (AList.update key (c * v key) avg) = Inr avg'"
    and m: "map_of avg' = (\<lambda>k. if k \<in> set rest then Some (c * v k)
                                 else map_of (AList.update key (c * v key) avg) k)"
    by auto
  have "aggregate_keys 0 coefs local (key # rest) avg = Inr avg'"
    using Cons.prems(1) loc run by simp
  moreover have "map_of avg' = (\<lambda>k. if k \<in> set (key # rest) then Some (c * v k) else map_of avg k)"
    unfolding m by (auto simp: fun_eq_iff update_conv')
  ultimately show ?case by blast
qed

lemma aggregate_keys_next:
  assumes "0 < it"
    and "list_getitem coefs (int it) = Inr c"
    and "\<forall>k\<in>set ks. map_of local k = Some (v k)"
    and "\<forall>k\<in>set ks. map_of avg k = Some (a k)"
    and "distinct ks"
  shows "\<exists>avg'. aggregate_keys it coefs local ks avg = Inr avg' \<and>
           map_of avg' = (\<lambda>k. if k \<in> set ks then Some (a k + c * v k) else map_of avg k)"
  using assms
proof (induction ks arbitrary: avg)
  case Nil
  then show ?case by simp
next
  case (Cons key rest)
  let ?avg = "AList.update key (a key + c * v key) avg"
  from Cons.prems have loc: "getitem local key = Inr (v key)"
    and acc: "getitem avg key = Inr (a key)"
    by (simp_all add: getitem_Some)
  have "\<forall>k\<in>set rest. map_of ?avg k = Some (a k)"
    using Cons.prems(4,5) by (auto simp: update_conv')
  with Cons.IH [of ?avg] Cons.prems
  obtain avg' where run: "aggregate_keys it coefs local rest ?avg = Inr avg'"
    and m: "map_of avg' = (\<lambda>k. if k \<in> set rest then Some (a k + c * v k) else map_of ?avg k)"
    by auto
  have "aggregate_keys it coefs local (key # rest) avg = Inr avg'"
    using Cons.prems(1,2) loc acc run by simp
  moreover have "map_of avg' =
      (\<lambda>k. if k \<in> set (key # rest) then Some (a k + c * v k) else map_of avg k)"
    unfolding m by (auto simp: fun_eq_iff update_conv')
  ultimately show ?case by blast
qed


lemma aggregate_loop_next:
  assumes "0 < it"
    and "distinct (keys g)"
    and "\<forall>idx\<in>set idxs. \<exists>c. list_getitem cs idx = Inr c \<and>
           (\<forall>k\<in>set (keys g). map_of (client_model c) k = Some (vals idx k))"
    and "it + length idxs \<le> length coefs"
    and "\<forall>k\<in>set (keys g). map_of avg k = Some (a k)"
  shows "\<exists>avg'. aggregate_loop (Some g) cs coefs it idxs avg = Inr avg' \<and>
           dom (map_of avg') = dom (map_of avg) \<and>
           (\<forall>k\<in>set (keys g). map_of avg' k =
              Some (foldl (+) (a k) (map2 (\<lambda>c idx. c * vals idx k) (drop it coefs) idxs)))"
  using assms
proof (induction idxs arbitrary: it avg a)
  case Nil
  then show ?case by simp
next
  case (Cons idx rest)
  from Cons.prems(3) obtain c where c: "list_getitem cs idx = Inr c"
    and loc: "\<forall>k\<in>set (keys g). map_of (client_model c) k = Some (vals idx k)"
    by auto
  from Cons.prems(4) have lt: "it < length coefs" by simp
  then have coef: "list_getitem coefs (int it) = Inr (coefs ! it)"
    by (rule list_getitem_nat)
  from aggregate_keys_next [OF Cons.prems(1) coef loc Cons.prems(5) Cons.prems(2), of ]
  obtain avg1 where run1: "aggregate_keys it coefs (client_model c) (keys g) avg = Inr avg1"
    and m1: "map_of avg1 = (\<lambda>k. if k \<in> set (keys g) then Some (a k + coefs ! it * vals idx k)
                                 else map_of avg k)"
    by blast
  have dom1: "dom (map_of avg1) = dom (map_of avg)"
    unfolding m1 using Cons.prems(5) by (auto simp: dom_def)
  have a1: "\<forall>k\<in>set (keys g). map_of avg1 k = Some (a k + coefs ! it * vals idx k)"
    unfolding m1 by simp
  from Cons.prems(3) have rest: "\<forall>idx\<in>set rest. \<exists>c. list_getitem cs idx = Inr c \<and>
           (\<forall>k\<in>set (keys g). map_of (client_model c) k = Some (vals idx k))"
    by simp
  from Cons.prems(4) have len: "Suc it + length rest \<le> length coefs" by simp
  from Cons.IH [OF _ Cons.prems(2) rest len a1]
  obtain avg' where run: "aggregate_loop (Some g) cs coefs (Suc it) rest avg1 = Inr avg'"
    and d: "dom (map_of avg') = dom (map_of avg1)"
    and m: "\<forall>k\<in>set (keys g). map_of avg' k =
              Some (foldl (+) (a k + coefs ! it * vals idx k)
                (map2 (\<lambda>c idx. c * vals idx k) (drop (Suc it) coefs) rest))"
    by auto
  have "aggregate_loop (Some g) cs coefs it (idx # rest) avg = Inr avg'"
    using c run1 run by simp
  moreover have "drop it coefs = coefs ! it # drop (Suc it) coefs"
    using lt by (simp add: Cons_nth_drop_Suc)
  ultimately show ?case using d dom1 m by simp
qed

lemma map_of_load:
  "map_of (map (\<lambda>(k, old). (k, f k old)) d) k = map_option (f k) (map_of d k)"
  by (induction d) auto

lemma keys_load: "keys (map (\<lambda>(k, old). (k, f k old)) d) = keys d"
  by (induction d) (auto simp: keys_def)

lemma load_state_dict_ok:
  assumes "dom (map_of new) = set (keys g)"
  shows "\<exists>g'. load_state_dict cast g new = Inr g' \<and> keys g' = keys g \<and>
           (\<forall>k\<in>set (keys g). map_of g' k = map_option (cast k) (map_of new k))"
proof -
  let ?g' = "map (\<lambda>(k, old). (k, case map_of new k of None \<Rightarrow> old | Some v \<Rightarrow> cast k v)) g"
  have "load_state_dict cast g new = Inr ?g'"
    using assms by (simp add: load_state_dict_def set_keys)
  moreover have "keys ?g' = keys g"
    by (rule keys_load)
  moreover have "map_of ?g' k = map_option (cast k) (map_of new k)" if "k \<in> set (keys g)" for k
  proof -
    from that assms obtain v where v: "map_of new k = Some v" by (auto simp: dom_def)
    from that obtain old where "map_of g k = Some old" by (auto simp: set_keys)
    then show ?thesis by (simp add: map_of_load v)
  qed
  ultimately show ?thesis by blast
qed

lemma aggregate_weighted:
  fixes s :: "('a::{plus,times}, 'd) server"
  assumes "model s = Some g"
    and "distinct (keys g)"
    and "\<forall>idx\<in>set (idx0 # rest). \<exists>c. list_getitem (clients s) idx = Inr c \<and>
           (\<forall>k\<in>set (keys g). map_of (client_model c) k = Some (vals idx k))"
    and "length rest \<le> length crest"
  shows "\<exists>g'. aggregate s (idx0 # rest) (c0 # crest) = Inr (s\<lparr>model := Some g'\<rparr>) \<and>
           keys g' = keys g \<and>
           (\<forall>k\<in>set (keys g). map_of g' k =
              Some (dtype_cast s k
                (foldl (+) (c0 * vals idx0 k) (map2 (\<lambda>c idx. c * vals idx k) crest rest))))"
proof -
  from assms(3) obtain c where c: "list_getitem (clients s) idx0 = Inr c"
    and loc: "\<forall>k\<in>set (keys g). map_of (client_model c) k = Some (vals idx0 k)"
    by auto
  have coef: "list_getitem (c0 # crest) 0 = Inr c0"
    using list_getitem_nat [of 0 "c0 # crest"] by simp
  from aggregate_keys_first [OF coef loc, of "[]"]
  obtain avg1 where run1: "aggregate_keys 0 (c0 # crest) (client_model c) (keys g) [] = Inr avg1"
    and m1: "map_of avg1 = (\<lambda>k. if k \<in> set (keys g) then Some (c0 * vals idx0 k) else map_of [] k)"
    by blast
  have a1: "\<forall>k\<in>set (keys g). map_of avg1 k = Some (c0 * vals idx0 k)"
    unfolding m1 by simp
  have dom1: "dom (map_of avg1) = set (keys g)"
    unfolding m1 by (auto simp: dom_def)
  from assms(3) have rest: "\<forall>idx\<in>set rest. \<exists>c. list_getitem (clients s) idx = Inr c \<and>
           (\<forall>k\<in>set (keys g). map_of (client_model c) k = Some (vals idx k))"
    by simp
  from assms(4) have len: "Suc 0 + length rest \<le> length (c0 # crest)" by simp
  from aggregate_loop_next [OF _ assms(2) rest len a1]
  obtain avg' where run: "aggregate_loop (Some g) (clients s) (c0 # crest) (Suc 0) rest avg1 = Inr avg'"
    and d: "dom (map_of avg') = dom (map_of avg1)"
    and m: "\<forall>k\<in>set (keys g). map_of avg' k =
              Some (foldl (+) (c0 * vals idx0 k) (map2 (\<lambda>c idx. c * vals idx k) crest rest))"
    by auto
  from load_state_dict_ok [of avg' g "dtype_cast s"] d dom1
  obtain g' where ld: "load_state_dict (dtype_cast s) g avg' = Inr g'" and k: "keys g' = keys g"
    and v: "\<forall>k\<in>set (keys g). map_of g' k = map_option (dtype_cast s k) (map_of avg' k)"
    by auto
  have "aggregate s (idx0 # rest) (c0 # crest) = Inr (s\<lparr>model := Some g'\<rparr>)"
    using assms(1) c run1 run ld by (simp add: aggregate_def)
  then show ?thesis using k v m by auto
qed


lemma valid_index_getitem:
  "valid_index xs i \<Longrightarrow> \<exists>x. list_getitem xs i = Inr x"
  by (auto simp: valid_index_def list_getitem_def)

lemma exported_Some:
  assumes "valid_index (clients s) idx"
    and "\<forall>k\<in>set ks. exported s idx k = Some (vals idx k)"
  shows "\<exists>c. list_getitem (clients s) idx = Inr c \<and>
           (\<forall>k\<in>set ks. map_of (client_model c) k = Some (vals idx k))"
proof -
  from valid_index_getitem [OF assms(1)] obtain c where c: "list_getitem (clients s) idx = Inr c"
    by blast
  with assms(2) show ?thesis by (auto simp: exported_def)
qed

text \<open>
  Claim C1, as the code has it. For a non-empty list of sampled client indices
  \<open>idx0 # rest\<close> and a parallel coefficient list \<open>c0 # crest\<close>, where every index
  denotes a client that exports every key of the coordinator's global state,
  \<open>aggregate\<close> succeeds and changes only the global state; the new state has the key
  list of the old one. Under each key it holds the sum of
  \<open>coefficient * exported value\<close> accumulated from the left (the first sampled client
  seeds the accumulator and every later one is added to it, in the order of the
  list), converted to the dtype of the coordinator's tensor under that key: the sum
  itself for a floating-point parameter, its truncation for an integer buffer. No law
  of \<open>+\<close> or \<open>*\<close> is used.
\<close>

theorem aggregate_weighted_sum:
  fixes s :: "('a::{plus,times}, 'd) server"
  assumes "model s = Some g"
    and "distinct (keys g)"
    and "length crest = length rest"
    and "\<forall>idx\<in>set (idx0 # rest). valid_index (clients s) idx"
    and "\<forall>idx\<in>set (idx0 # rest). \<forall>k\<in>set (keys g). exported s idx k = Some (vals idx k)"
  shows "\<exists>g'. aggregate s (idx0 # rest) (c0 # crest) = Inr (s\<lparr>model := Some g'\<rparr>) \<and>
           keys g' = keys g \<and>
           (\<forall>k\<in>set (keys g). map_of g' k =
              Some (dtype_cast s k
                (foldl (+) (c0 * vals idx0 k) (map2 (\<lambda>c idx. c * vals idx k) crest rest))))"
proof -
  have "\<forall>idx\<in>set (idx0 # rest). \<exists>c. list_getitem (clients s) idx = Inr c \<and>
           (\<forall>k\<in>set (keys g). map_of (client_model c) k = Some (vals idx k))"
    using assms(4,5) exported_Some [of s _ "keys g" vals] by blast
  moreover have "length rest \<le> length crest"
    using assms(3) by simp
  ultimately show ?thesis
    using aggregate_weighted [OF assms(1,2)] by blast
qed

theorem aggregate_weighted_sum_witness:
  "(\<exists>g'. aggregate demo_server [0, 2, 3] [2, 3, 4] = Inr (demo_server\<lparr>model := Some g'\<rparr>) \<and>
      keys g' = [''w'', ''b''] \<and>
      map_of g' ''w'' = Some (2 * 1 + 3 * 5 + 4 * 7) \<and>
      map_of g' ''b'' = Some (2 * 2 + 3 * 6 + 4 * 8)) \<and>
   (\<exists>g'. aggregate demo_counter_server [0, 1] [1/4, 3/4]
            = Inr (demo_counter_server\<lparr>model := Some g'\<rparr>) \<and>
      keys g' = [''w'', ''n''] \<and> map_of g' ''w'' = Some 7 \<and> map_of g' ''n'' = Some 1)"
proof -
  have m: "model demo_server = Some [(''w'', 0), (''b'', 0)]"
    by (simp add: demo_server_def)
  have d: "distinct (keys [(''w'', 0::real), (''b'', 0)])"
    by (simp add: keys_def)
  have l: "length [3, 4::real] = length [2, 3::int]"
    by simp
  have v: "\<forall>idx\<in>set (0 # [2, 3]). valid_index (clients demo_server) idx"
    by (simp add: valid_index_def norm_index_def demo_server_def)
  have e: "\<forall>idx\<in>set (0 # [2, 3]). \<forall>k\<in>set (keys [(''w'', 0::real), (''b'', 0)]).
             exported demo_server idx k = Some (demo_vals idx k)"
    by (simp add: exported_def list_getitem_def norm_index_def demo_server_def mk_client_def
        demo_vals_def keys_def)
  have c: "dtype_cast demo_server = (\<lambda>k v. v)"
    by (simp add: demo_server_def)
  have m': "model demo_counter_server = Some [(''w'', 0), (''n'', 0)]"
    by (simp add: demo_counter_server_def)
  have d': "distinct (keys [(''w'', 0::real), (''n'', 0)])"
    by (simp add: keys_def)
  have l': "length [3/4::real] = length [1::int]"
    by simp
  have v': "\<forall>idx\<in>set (0 # [1]). valid_index (clients demo_counter_server) idx"
    by (simp add: valid_index_def norm_index_def demo_counter_server_def)
  have e': "\<forall>idx\<in>set (0 # [1]). \<forall>k\<in>set (keys [(''w'', 0::real), (''n'', 0)]).
             exported demo_counter_server idx k =
               Some (if k = ''w'' then 4 * real_of_int idx + 4 else real_of_int idx + 1)"
    by (simp add: exported_def list_getitem_def norm_index_def demo_counter_server_def keys_def)
  have c': "dtype_cast demo_counter_server =
              (\<lambda>k v. if k = ''n'' then real_of_int (py_int v) else v)"
    by (simp add: demo_counter_server_def)
  from aggregate_weighted_sum [OF m d l v e, of 2]
  have first: "\<exists>g'. aggregate demo_server [0, 2, 3] [2, 3, 4] = Inr (demo_server\<lparr>model := Some g'\<rparr>) \<and>
      keys g' = [''w'', ''b''] \<and>
      map_of g' ''w'' = Some (2 * 1 + 3 * 5 + 4 * 7) \<and>
      map_of g' ''b'' = Some (2 * 2 + 3 * 6 + 4 * 8)"
    by (simp add: keys_def demo_vals_def c)
  from aggregate_weighted_sum [OF m' d' l' v' e', of "1/4"]
  have second: "\<exists>g'. aggregate demo_counter_server [0, 1] [1/4, 3/4]
            = Inr (demo_counter_server\<lparr>model := Some g'\<rparr>) \<and>
      keys g' = [''w'', ''n''] \<and> map_of g' ''w'' = Some 7 \<and> map_of g' ''n'' = Some 1"
    by (simp add: keys_def c' py_int_def)
  from first second show ?thesis by blast
qed

text \<open>
  The claim as stated fails for an integer buffer: the two clients export \<open>1\<close> and \<open>2\<close>
  under \<open>n\<close>, the weighted sum with the coefficients \<open>1/4\<close> and \<open>3/4\<close> is \<open>7/4\<close>, and the
  new global state holds \<open>1\<close>.
\<close>

theorem aggregate_cast_counterexample:
  "exported demo_counter_server 0 ''n'' = Some 1 \<and>
   exported demo_counter_server 1 ''n'' = Some 2 \<and>
   foldl (+) (1/4 * 1) (map2 (\<lambda>c v. c * v) [3/4] [2]) = (7/4 :: real) \<and>
   aggregate demo_counter_server [0, 1] [1/4, 3/4]
     = Inr (demo_counter_server\<lparr>model := Some [(''w'', 7), (''n'', 1)]\<rparr>)"
  by (simp add: demo_counter_server_def exported_def aggregate_def list_getitem_def
      norm_index_def getitem_def keys_def load_state_dict_def py_int_def)

section \<open>Aggregation and mismatched key sets\<close>

lemma aggregate_keys_outcome:
  assumes "list_getitem coefs (int it) = Inr c"
    and "it = 0 \<or> set ks \<subseteq> dom (map_of avg)"
  shows "if set ks \<subseteq> dom (map_of local)
         then \<exists>avg'. aggregate_keys it coefs local ks avg = Inr avg' \<and>
                dom (map_of avg') = dom (map_of avg) \<union> set ks
         else aggregate_keys it coefs local ks avg = Inl KeyError"
  using assms
proof (induction ks arbitrary: avg)
  case Nil
  then show ?case by simp
next
  case (Cons key rest)
  show ?case
  proof (cases "map_of local key")
    case None
    then have miss: "getitem local key = Inl KeyError"
      by (rule getitem_None)
    have "aggregate_keys it coefs local (key # rest) avg = Inl KeyError"
    proof (cases "it = 0")
      case True
      with Cons.prems(1) miss show ?thesis by simp
    next
      case False
      with Cons.prems(2) obtain a where "map_of avg key = Some a" by auto
      then have "getitem avg key = Inr a" by (rule getitem_Some)
      with False Cons.prems(1) miss show ?thesis by simp
    qed
    moreover have "\<not> set (key # rest) \<subseteq> dom (map_of local)"
      using None by auto
    ultimately show ?thesis by simp
  next
    case (Some w)
    then have loc: "getitem local key = Inr w"
      by (rule getitem_Some)
    have sub: "set (key # rest) \<subseteq> dom (map_of local) \<longleftrightarrow> set rest \<subseteq> dom (map_of local)"
      using Some by auto
    show ?thesis
    proof (cases "it = 0")
      case True
      let ?avg = "AList.update key (c * w) avg"
      have step: "aggregate_keys it coefs local (key # rest) avg =
                  aggregate_keys it coefs local rest ?avg"
        using True Cons.prems(1) loc by simp
      have d: "dom (map_of ?avg) \<union> set rest = dom (map_of avg) \<union> set (key # rest)"
        by (auto simp: update_conv')
      from Cons.IH [of ?avg] Cons.prems(1) True
      show ?thesis unfolding step sub d [symmetric] by simp
    next
      case False
      with Cons.prems(2) obtain a where a: "map_of avg key = Some a" by auto
      then have acc: "getitem avg key = Inr a" by (rule getitem_Some)
      let ?avg = "AList.update key (a + c * w) avg"
      have step: "aggregate_keys it coefs local (key # rest) avg =
                  aggregate_keys it coefs local rest ?avg"
        using False Cons.prems(1) loc acc by simp
      have d: "dom (map_of ?avg) \<union> set rest = dom (map_of avg) \<union> set (key # rest)"
        by (auto simp: update_conv')
      have "it = 0 \<or> set rest \<subseteq> dom (map_of ?avg)"
        using Cons.prems(2) False by (auto simp: update_conv')
      from Cons.IH [OF Cons.prems(1) this]
      show ?thesis unfolding step sub d [symmetric] by simp
    qed
  qed
qed

lemma aggregate_loop_outcome:
  assumes "\<forall>idx\<in>set idxs. valid_index cs idx"
    and "it + length idxs \<le> length coefs"
    and "it = 0 \<or> set (keys g) \<subseteq> dom (map_of avg)"
  shows "if \<forall>idx\<in>set idxs. \<forall>c. list_getitem cs idx = Inr c \<longrightarrow>
              set (keys g) \<subseteq> dom (map_of (client_model c))
         then \<exists>avg'. aggregate_loop (Some g) cs coefs it idxs avg = Inr avg' \<and>
                dom (map_of avg') =
                  (if idxs = [] then dom (map_of avg) else dom (map_of avg) \<union> set (keys g))
         else aggregate_loop (Some g) cs coefs it idxs avg = Inl KeyError"
  using assms
proof (induction idxs arbitrary: it avg)
  case Nil
  then show ?case by simp
next
  case (Cons idx rest)
  from Cons.prems(1) valid_index_getitem [of cs idx]
  obtain c where c: "list_getitem cs idx = Inr c" by auto
  from Cons.prems(2) have "it < length coefs" by simp
  then have coef: "list_getitem coefs (int it) = Inr (coefs ! it)"
    by (rule list_getitem_nat)
  note inner = aggregate_keys_outcome [OF coef Cons.prems(3), of "client_model c"]
  show ?case
  proof (cases "set (keys g) \<subseteq> dom (map_of (client_model c))")
    case False
    with inner have "aggregate_keys it coefs (client_model c) (keys g) avg = Inl KeyError"
      by simp
    then have "aggregate_loop (Some g) cs coefs it (idx # rest) avg = Inl KeyError"
      using c by simp
    moreover have "\<not> (\<forall>i\<in>set (idx # rest). \<forall>c. list_getitem cs i = Inr c \<longrightarrow>
              set (keys g) \<subseteq> dom (map_of (client_model c)))"
      using c False by auto
    ultimately show ?thesis by simp
  next
    case True
    with inner obtain avg1
      where run1: "aggregate_keys it coefs (client_model c) (keys g) avg = Inr avg1"
        and d1: "dom (map_of avg1) = dom (map_of avg) \<union> set (keys g)"
      by auto
    have step: "aggregate_loop (Some g) cs coefs it (idx # rest) avg =
                aggregate_loop (Some g) cs coefs (Suc it) rest avg1"
      using c run1 by simp
    have all: "(\<forall>i\<in>set (idx # rest). \<forall>c. list_getitem cs i = Inr c \<longrightarrow>
              set (keys g) \<subseteq> dom (map_of (client_model c))) \<longleftrightarrow>
          (\<forall>i\<in>set rest. \<forall>c. list_getitem cs i = Inr c \<longrightarrow>
              set (keys g) \<subseteq> dom (map_of (client_model c)))"
      using c True by auto
    have v: "\<forall>i\<in>set rest. valid_index cs i" using Cons.prems(1) by simp
    have l: "Suc it + length rest \<le> length coefs" using Cons.prems(2) by simp
    have k: "Suc it = 0 \<or> set (keys g) \<subseteq> dom (map_of avg1)" using d1 by simp
    from Cons.IH [OF v l k] show ?thesis
      unfolding step all using d1 by (auto split: if_splits)
  qed
qed

lemma exports_all_iff:
  assumes "valid_index (clients s) idx"
  shows "exports_all s ks idx \<longleftrightarrow>
         (\<forall>c. list_getitem (clients s) idx = Inr c \<longrightarrow> set ks \<subseteq> dom (map_of (client_model c)))"
proof -
  from valid_index_getitem [OF assms] obtain c where "list_getitem (clients s) idx = Inr c"
    by blast
  then show ?thesis
    by (auto simp: exports_all_def exported_def list_all_iff)
qed

text \<open>
  Claim C5, as the code has it. \<open>aggregate\<close> compares no key sets before combining. For
  legal indices and enough coefficients its outcome depends only on whether every
  sampled client exports every key of the coordinator: if so it succeeds, with a new
  global state over exactly the coordinator's keys (keys the clients export beyond
  those are ignored); if not it raises \<^verbatim>\<open>KeyError\<close> from the lookup inside the loop and
  produces no new state.
\<close>

theorem aggregate_key_mismatch:
  fixes s :: "('a::{plus,times}, 'd) server"
  assumes "model s = Some g"
    and "length rest \<le> length crest"
    and "\<forall>idx\<in>set (idx0 # rest). valid_index (clients s) idx"
  shows "if list_all (exports_all s (keys g)) (idx0 # rest)
         then \<exists>g'. aggregate s (idx0 # rest) (c0 # crest) = Inr (s\<lparr>model := Some g'\<rparr>) \<and>
                keys g' = keys g
         else aggregate s (idx0 # rest) (c0 # crest) = Inl KeyError"
proof -
  have l: "0 + length (idx0 # rest) \<le> length (c0 # crest)"
    using assms(2) by simp
  have iff: "list_all (exports_all s (keys g)) (idx0 # rest) \<longleftrightarrow>
      (\<forall>idx\<in>set (idx0 # rest). \<forall>c. list_getitem (clients s) idx = Inr c \<longrightarrow>
              set (keys g) \<subseteq> dom (map_of (client_model c)))"
    unfolding list_all_iff using assms(3) exports_all_iff [of s _ "keys g"] by blast
  define P where "P \<longleftrightarrow> (\<forall>idx\<in>set (idx0 # rest). \<forall>c. list_getitem (clients s) idx = Inr c \<longrightarrow>
              set (keys g) \<subseteq> dom (map_of (client_model c)))"
  have out: "if P
         then \<exists>avg'. aggregate_loop (Some g) (clients s) (c0 # crest) 0 (idx0 # rest) [] = Inr avg' \<and>
                dom (map_of avg') = set (keys g)
         else aggregate_loop (Some g) (clients s) (c0 # crest) 0 (idx0 # rest) [] = Inl KeyError"
  proof -
    have dm: "(if idx0 # rest = [] then dom (map_of ([] :: 'a state_dict))
               else dom (map_of ([] :: 'a state_dict)) \<union> set (keys g)) = set (keys g)"
      by simp
    show ?thesis
      using aggregate_loop_outcome [OF assms(3) l, of g "[]"] unfolding P_def dm
      by blast
  qed
  have iff': "list_all (exports_all s (keys g)) (idx0 # rest) \<longleftrightarrow> P"
    using iff unfolding P_def .
  show ?thesis
  proof (cases P)
    case False
    with out have "aggregate_loop (Some g) (clients s) (c0 # crest) 0 (idx0 # rest) [] = Inl KeyError"
      by simp
    then show ?thesis using False assms(1) unfolding iff' by (simp add: aggregate_def)
  next
    case True
    with out obtain avg'
      where run: "aggregate_loop (Some g) (clients s) (c0 # crest) 0 (idx0 # rest) [] = Inr avg'"
        and d: "dom (map_of avg') = set (keys g)"
      by auto
    from load_state_dict_ok [OF d, of "dtype_cast s"]
    obtain g' where ld: "load_state_dict (dtype_cast s) g avg' = Inr g'" and k: "keys g' = keys g"
      by blast
    have "aggregate s (idx0 # rest) (c0 # crest) = Inr (s\<lparr>model := Some g'\<rparr>)"
      using run ld assms(1) by (simp add: aggregate_def del: aggregate_loop.simps)
    with k have "\<exists>g'. aggregate s (idx0 # rest) (c0 # crest) = Inr (s\<lparr>model := Some g'\<rparr>) \<and>
                keys g' = keys g"
      by blast
    then show ?thesis using True unfolding iff' by (simp only: if_True)
  qed
qed

theorem aggregate_key_mismatch_witness:
  "aggregate demo_missing_server [0, 1] [1, 1] = Inl KeyError \<and>
   (\<exists>g'. aggregate demo_extra_server [0] [1] = Inr (demo_extra_server\<lparr>model := Some g'\<rparr>) \<and>
          keys g' = [''w''])"
proof -
  have "aggregate demo_missing_server [0, 1] [1, 1] = Inl KeyError"
    using aggregate_key_mismatch [of demo_missing_server "[(''w'', 0), (''b'', 0)]" "[1]" "[1]" 0 1]
    by (simp add: demo_missing_server_def valid_index_def norm_index_def exports_all_def
        exported_def list_getitem_def keys_def)
  moreover have "\<exists>g'. aggregate demo_extra_server [0] [1] = Inr (demo_extra_server\<lparr>model := Some g'\<rparr>) \<and>
          keys g' = [''w'']"
    using aggregate_key_mismatch [of demo_extra_server "[(''w'', 0)]" "[]" "[]" 0 1]
    by (simp add: demo_extra_server_def valid_index_def norm_index_def exports_all_def
        exported_def list_getitem_def keys_def)
  ultimately show ?thesis by blast
qed

text \<open>
  The claim as stated fails: the client of \<open>demo_extra_server\<close> exports the key set
  \<open>{w, extra}\<close>, the coordinator has \<open>{w}\<close>, and aggregation succeeds.
\<close>

theorem aggregate_no_validation_counterexample:
  "set (keys (client_model (clients demo_extra_server ! 0))) \<noteq> set (keys [(''w'', 0::real)]) \<and>
   model demo_extra_server = Some [(''w'', 0)] \<and>
   aggregate demo_extra_server [0] [1] = Inr (demo_extra_server\<lparr>model := Some [(''w'', 5)]\<rparr>)"
  by (simp add: demo_extra_server_def keys_def aggregate_def list_getitem_def norm_index_def
      getitem_def load_state_dict_def)

section \<open>Aggregating a single client\<close>

text \<open>
  Claim C7. Aggregating exactly one sampled client with the single coefficient \<open>1\<close>,
  when the client exports the key set of the coordinator and its values have the
  dtypes of the coordinator's tensors (copying them in converts nothing), yields a
  global state that holds under every key exactly the client's value, and no other
  key. Only \<open>1 * x = x\<close> is used of the arithmetic, which holds of floating-point
  multiplication as well.
\<close>

theorem aggregate_single_identity:
  fixes s :: "('a::{plus,monoid_mult}, 'd) server"
  assumes "model s = Some g"
    and "list_getitem (clients s) idx = Inr c"
    and "set (keys (client_model c)) = set (keys g)"
    and "\<forall>k v. map_of (client_model c) k = Some v \<longrightarrow> dtype_cast s k v = v"
  shows "\<exists>g'. aggregate s [idx] [1] = Inr (s\<lparr>model := Some g'\<rparr>) \<and>
           keys g' = keys g \<and> map_of g' = map_of (client_model c)"
proof -
  let ?v = "\<lambda>k. the (map_of (client_model c) k)"
  have loc: "\<forall>k\<in>set (keys g). map_of (client_model c) k = Some (?v k)"
  proof
    fix k
    assume "k \<in> set (keys g)"
    then have "k \<in> dom (map_of (client_model c))"
      using assms(3) by (simp add: set_keys)
    then show "map_of (client_model c) k = Some (?v k)" by auto
  qed
  have coef: "list_getitem [1::'a] 0 = Inr 1"
    using list_getitem_nat [of 0 "[1::'a]"] by simp
  from aggregate_keys_first [OF coef loc, of "[]"]
  obtain avg where run: "aggregate_keys 0 [1] (client_model c) (keys g) [] = Inr avg"
    and m: "map_of avg = (\<lambda>k. if k \<in> set (keys g) then Some (1 * ?v k) else map_of [] k)"
    by blast
  have eq: "map_of avg = map_of (client_model c)"
  proof
    fix k
    show "map_of avg k = map_of (client_model c) k"
    proof (cases "k \<in> set (keys g)")
      case True
      with loc show ?thesis by (simp add: m)
    next
      case False
      with assms(3) have "map_of (client_model c) k = None"
        by (auto simp: set_keys)
      with False show ?thesis by (simp add: m)
    qed
  qed
  have d: "dom (map_of avg) = set (keys g)"
    unfolding eq using assms(3) by (simp add: set_keys)
  from load_state_dict_ok [OF d, of "dtype_cast s"]
  obtain g' where ld: "load_state_dict (dtype_cast s) g avg = Inr g'" and k: "keys g' = keys g"
    and v: "\<forall>k\<in>set (keys g). map_of g' k = map_option (dtype_cast s k) (map_of avg k)"
    by blast
  have "map_of g' = map_of (client_model c)"
  proof
    fix x
    show "map_of g' x = map_of (client_model c) x"
    proof (cases "x \<in> set (keys g)")
      case True
      with loc obtain w where w: "map_of (client_model c) x = Some w" by blast
      with assms(4) have "dtype_cast s x w = w" by blast
      with w v True eq show ?thesis by simp
    next
      case False
      then have "x \<notin> set (keys g')" using k by simp
      then have "x \<notin> dom (map_of g')" by (simp add: set_keys)
      then have "map_of g' x = None" by auto
      moreover have "map_of (client_model c) x = None"
        using False assms(3) by (auto simp: set_keys)
      ultimately show ?thesis by simp
    qed
  qed
  moreover have "aggregate s [idx] [1] = Inr (s\<lparr>model := Some g'\<rparr>)"
    using assms(1,2) run ld by (simp add: aggregate_def)
  ultimately show ?thesis using k by blast
qed

theorem aggregate_single_identity_witness:
  "(\<exists>g'. aggregate demo_server [2] [1] = Inr (demo_server\<lparr>model := Some g'\<rparr>) \<and>
      keys g' = [''w'', ''b''] \<and> map_of g' = map_of [(''w'', 5), (''b'', 6)]) \<and>
   (\<exists>g'. aggregate demo_counter_server [1] [1] = Inr (demo_counter_server\<lparr>model := Some g'\<rparr>) \<and>
      keys g' = [''w'', ''n''] \<and> map_of g' = map_of [(''w'', 8), (''n'', 2)])"
proof -
  have m: "model demo_server = Some [(''w'', 0), (''b'', 0)]"
    by (simp add: demo_server_def)
  have c: "list_getitem (clients demo_server) 2 = Inr (mk_client 5 6 30)"
    by (simp add: demo_server_def list_getitem_def norm_index_def)
  have k: "set (keys (client_model (mk_client 5 6 30))) = set (keys [(''w'', 0::real), (''b'', 0)])"
    by (simp add: mk_client_def keys_def)
  have t: "\<forall>k v. map_of (client_model (mk_client 5 6 30)) k = Some v \<longrightarrow>
             dtype_cast demo_server k v = v"
    by (simp add: demo_server_def)
  have m': "model demo_counter_server = Some [(''w'', 0), (''n'', 0)]"
    by (simp add: demo_counter_server_def)
  have c': "list_getitem (clients demo_counter_server) 1 =
              Inr \<lparr>client_model = [(''w'', 8), (''n'', 2)], client_len = 30\<rparr>"
    by (simp add: demo_counter_server_def list_getitem_def norm_index_def)
  have k': "set (keys (client_model \<lparr>client_model = [(''w'', 8), (''n'', 2 :: real)], client_len = 30\<rparr>))
              = set (keys [(''w'', 0::real), (''n'', 0)])"
    by (simp add: keys_def)
  have t': "\<forall>k v. map_of (client_model \<lparr>client_model = [(''w'', 8), (''n'', 2)], client_len = 30\<rparr>) k
                = Some v \<longrightarrow> dtype_cast demo_counter_server k v = v"
    by (simp add: demo_counter_server_def py_int_def)
  from aggregate_single_identity [OF m c k t]
  have first: "\<exists>g'. aggregate demo_server [2] [1] = Inr (demo_server\<lparr>model := Some g'\<rparr>) \<and>
      keys g' = [''w'', ''b''] \<and> map_of g' = map_of [(''w'', 5), (''b'', 6)]"
    by (simp add: keys_def mk_client_def)
  from aggregate_single_identity [OF m' c' k' t']
  have second: "\<exists>g'. aggregate demo_counter_server [1] [1]
        = Inr (demo_counter_server\<lparr>model := Some g'\<rparr>) \<and>
      keys g' = [''w'', ''n''] \<and> map_of g' = map_of [(''w'', 8), (''n'', 2)]"
    by (simp add: keys_def)
  from first second show ?thesis by blast
qed

section \<open>Sampling\<close>

lemma is_permutation_props:
  assumes "is_permutation n perm"
  shows "length perm = n" and "distinct perm" and "set perm = {0..<n}"
proof -
  from assms have eq: "sort perm = [0..<n]" by (simp add: is_permutation_def)
  have "length (sort perm) = n" unfolding eq by simp
  then show "length perm = n" by simp
  have "distinct (sort perm)" unfolding eq by simp
  then show "distinct perm" by simp
  have "set (sort perm) = {0..<n}" unfolding eq by simp
  then show "set perm = {0..<n}" by simp
qed

lemma random_choice_range:
  assumes "is_permutation n perm" and "k \<le> n" and "0 < n"
  shows "random_choice (map int [0..<n]) k perm = Inr (map int (take k perm))"
proof -
  have "map (\<lambda>i. map int [0..<n] ! i) (take k perm) = map int (take k perm)"
  proof (rule map_cong [OF refl])
    fix i
    assume "i \<in> set (take k perm)"
    then have "i \<in> set perm" by (rule in_set_takeD)
    then have "i < n" using is_permutation_props(3) [OF assms(1)] by simp
    then show "map int [0..<n] ! i = int i" by simp
  qed
  then show ?thesis using assms(2,3) by (simp add: random_choice_def)
qed

lemma sample_clients_sorted:
  assumes "is_permutation (num_clients s) perm"
    and "sample_clients rnd s perm = Inr sampled"
  shows "sorted_wrt (<) sampled"
    and "\<forall>i\<in>set sampled. 0 \<le> i \<and> i < int (num_clients s)"
    and "sampled \<noteq> []"
    and "length sampled = nat (max (py_int (rnd (fraction s * real (num_clients s)))) 1)"
proof -
  let ?n = "num_clients s"
  let ?k = "nat (max (py_int (rnd (fraction s * real ?n))) 1)"
  have kpos: "0 < ?k" by simp
  from assms(2) have ok: "\<not> (map int [0..<?n] = [] \<and> 0 < ?k)" "\<not> length (map int [0..<?n]) < ?k"
    by (auto simp: sample_clients_def random_choice_def Let_def split: if_splits)
  then have n: "0 < ?n" and kn: "?k \<le> ?n" using kpos by auto
  from random_choice_range [OF assms(1) kn n] assms(2)
  have sampled: "sampled = sort (map int (take ?k perm))"
    by (simp add: sample_clients_def Let_def)
  have d: "distinct (map int (take ?k perm))"
    using is_permutation_props(2) [OF assms(1)] by (simp add: distinct_map)
  show "sorted_wrt (<) sampled"
    unfolding sampled using d by (simp add: strict_sorted_iff)
  show "\<forall>i\<in>set sampled. 0 \<le> i \<and> i < int ?n"
  proof
    fix i
    assume "i \<in> set sampled"
    then obtain j where j: "j \<in> set (take ?k perm)" and i: "i = int j"
      unfolding sampled by auto
    from j have "j \<in> set perm" by (rule in_set_takeD)
    then have "j < ?n" using is_permutation_props(3) [OF assms(1)] by simp
    then show "0 \<le> i \<and> i < int ?n" using i by simp
  qed
  have len: "length sampled = ?k"
    unfolding sampled using kn is_permutation_props(1) [OF assms(1)] by simp
  then show "length sampled = ?k" .
  from len kpos show "sampled \<noteq> []" by auto
qed

text \<open>
  What is used of the rounding to a double: it is monotone, and it leaves \<open>0\<close> and the
  client count, which are doubles, as they are.
\<close>

lemma sample_clients_succeeds:
  assumes "1 \<le> num_clients s" and "0 < fraction s" and "fraction s \<le> 1"
    and "is_permutation (num_clients s) perm"
    and "mono rnd" and "rnd 0 = 0" and "rnd (real (num_clients s)) = real (num_clients s)"
  shows "\<exists>sampled. sample_clients rnd s perm = Inr sampled"
    and "py_int (rnd (fraction s * real (num_clients s))) =
           \<lfloor>rnd (fraction s * real (num_clients s))\<rfloor>"
proof -
  let ?n = "num_clients s"
  let ?x = "fraction s * real ?n"
  have "0 \<le> ?x" using assms(2) by simp
  from monoD [OF assms(5) this] have nonneg: "0 \<le> rnd ?x" using assms(6) by simp
  then show fl: "py_int (rnd ?x) = \<lfloor>rnd ?x\<rfloor>" by (simp add: py_int_def)
  have "?x \<le> real ?n" using mult_right_mono [OF assms(3), of "real ?n"] by simp
  from monoD [OF assms(5) this] have "rnd ?x \<le> real ?n" using assms(7) by simp
  then have "\<lfloor>rnd ?x\<rfloor> \<le> int ?n" by (simp add: floor_le_iff)
  then have kn: "nat (max (py_int (rnd ?x)) 1) \<le> ?n" using assms(1) fl by simp
  have n: "0 < ?n" using assms(1) by (cases "clients s") auto
  from random_choice_range [OF assms(4) kn n]
  show "\<exists>sampled. sample_clients rnd s perm = Inr sampled"
    by (simp add: sample_clients_def Let_def)
qed

lemma round_to_mono: "x \<le> y \<Longrightarrow> round_to k x \<le> round_to k y"
proof -
  assume "x \<le> y"
  then have "x * 2 ^ k \<le> y * 2 ^ k" by simp
  then have "round (x * 2 ^ k) \<le> round (y * 2 ^ k)" by (rule round_mono)
  then show ?thesis by (simp add: round_to_def divide_right_mono)
qed

lemma round_to_of_int: "round_to k (of_int i) = of_int i"
proof -
  have "(of_int i :: real) * 2 ^ k = of_int (i * 2 ^ k)" by simp
  then have "round ((of_int i :: real) * 2 ^ k) = i * 2 ^ k" by (simp only: round_of_int)
  then show ?thesis by (simp add: round_to_def)
qed

lemma demo_round_mono: "mono demo_round"
proof (rule monoI)
  fix x y :: real
  assume le: "x \<le> y"
  have one: "round_to k 1 = 1" and two: "round_to k 2 = 2" for k
    using round_to_of_int [of k 1] round_to_of_int [of k 2] by simp_all
  consider "y < 1" | "1 \<le> x" "y < 2" | "2 \<le> x" | "x < 1" "1 \<le> y" | "x < 2" "2 \<le> y" "1 \<le> x"
    using le by linarith
  then show "demo_round x \<le> demo_round y"
  proof cases
    case 1
    with le show ?thesis by (simp add: demo_round_def round_to_mono)
  next
    case 2
    with le show ?thesis by (simp add: demo_round_def round_to_mono)
  next
    case 3
    with le show ?thesis by (simp add: demo_round_def round_to_mono)
  next
    case 4
    have a: "round_to 53 x \<le> 1" using round_to_mono [of x 1 53] 4(1) one by simp
    have b: "1 \<le> round_to 52 y" "1 \<le> round_to 51 y"
      using round_to_mono [of 1 y 52] round_to_mono [of 1 y 51] 4(2) one by simp_all
    from a b 4 show ?thesis by (simp add: demo_round_def)
  next
    case 5
    have a: "round_to 52 x \<le> 2" using round_to_mono [of x 2 52] 5(1) two by simp
    have b: "2 \<le> round_to 51 y" using round_to_mono [of 2 y 51] 5(2) two by simp
    from a b 5 show ?thesis by (simp add: demo_round_def)
  qed
qed

text \<open>
  Claim C2, as the code has it. With at least one registered client, a fraction in
  \<open>(0, 1]\<close> that is a double, and a well-formed draw of the random generator,
  \<open>sample_clients\<close> returns a strictly ascending list (hence without repetition) of
  indices, each in \<open>[0, num_clients)\<close>. Their number is \<open>max \<lfloor>p\<rfloor> 1\<close> where \<open>p\<close> is the
  product of the fraction and the client count rounded to a double, as the float
  multiplication of the code delivers it; it need not be the floor of the exact
  product.
\<close>

theorem sample_clients_ascending:
  assumes "1 \<le> num_clients s" and "0 < fraction s" and "fraction s \<le> 1"
    and "is_permutation (num_clients s) perm"
    and "mono rnd" and "rnd 0 = 0" and "rnd (real (num_clients s)) = real (num_clients s)"
    and "rnd (fraction s) = fraction s"
  shows "\<exists>sampled. sample_clients rnd s perm = Inr sampled \<and>
           sorted_wrt (<) sampled \<and> distinct sampled \<and>
           length sampled = nat (max \<lfloor>rnd (fraction s * real (num_clients s))\<rfloor> 1) \<and>
           (\<forall>i\<in>set sampled. 0 \<le> i \<and> i < int (num_clients s))"
proof -
  from sample_clients_succeeds [OF assms(1-7)]
  obtain sampled where run: "sample_clients rnd s perm = Inr sampled"
    and fl: "py_int (rnd (fraction s * real (num_clients s))) =
               \<lfloor>rnd (fraction s * real (num_clients s))\<rfloor>"
    by blast
  note p = sample_clients_sorted [OF assms(4) run]
  have "distinct sampled" using p(1) by (simp add: strict_sorted_iff)
  with run p fl show ?thesis by simp
qed

theorem sample_clients_ascending_witness:
  "sample_clients demo_round demo_server [2, 0, 3, 1] = Inr [0, 2] \<and>
   length [0, 2 :: int] =
     nat (max \<lfloor>demo_round (fraction demo_server * real (num_clients demo_server))\<rfloor> 1) \<and>
   (\<exists>sampled. sample_clients demo_round demo_five_server [3, 1, 4, 0, 2] = Inr sampled \<and>
      sorted_wrt (<) sampled \<and> length sampled = 3)"
proof -
  have a: "1 \<le> num_clients demo_server" "0 < fraction demo_server" "fraction demo_server \<le> 1"
    by (simp_all add: demo_server_def)
  have p: "is_permutation (num_clients demo_server) [2, 0, 3, 1]"
    by (simp add: demo_server_def is_permutation_def upt_conv_Cons)
  have r: "demo_round 0 = 0"
    "demo_round (real (num_clients demo_server)) = real (num_clients demo_server)"
    "demo_round (fraction demo_server) = fraction demo_server"
    by (simp_all add: demo_round_def round_to_def demo_server_def)
  have e: "sample_clients demo_round demo_server [2, 0, 3, 1] = Inr [0, 2]"
    by (simp add: sample_clients_def demo_server_def random_choice_def py_int_def
        demo_round_def round_to_def upt_conv_Cons)
  have a': "1 \<le> num_clients demo_five_server" "0 < fraction demo_five_server"
    "fraction demo_five_server \<le> 1"
    by (simp_all add: demo_five_server_def)
  have p': "is_permutation (num_clients demo_five_server) [3, 1, 4, 0, 2]"
    by (simp add: demo_five_server_def is_permutation_def upt_conv_Cons)
  have r': "demo_round (real (num_clients demo_five_server)) = real (num_clients demo_five_server)"
    by (simp add: demo_round_def round_to_def demo_five_server_def)
  have f': "demo_round (fraction demo_five_server) = fraction demo_five_server"
    "demo_round (fraction demo_five_server * real (num_clients demo_five_server)) = 3"
    by (simp_all add: demo_round_def round_to_def demo_five_server_def round_def)
  from sample_clients_ascending [OF a p demo_round_mono r] e
  have first: "sample_clients demo_round demo_server [2, 0, 3, 1] = Inr [0, 2] \<and>
      length [0, 2 :: int] =
        nat (max \<lfloor>demo_round (fraction demo_server * real (num_clients demo_server))\<rfloor> 1)"
    by simp
  from sample_clients_ascending [OF a' p' demo_round_mono r(1) r' f'(1)] f'(2)
  have second: "\<exists>sampled. sample_clients demo_round demo_five_server [3, 1, 4, 0, 2] = Inr sampled \<and>
      sorted_wrt (<) sampled \<and> length sampled = 3"
    by auto
  from first second show ?thesis by blast
qed

text \<open>
  The claim as stated fails: for five clients and the double nearest to \<open>0.6\<close> the
  floor of the product is \<open>2\<close>, the rounded product is \<open>3\<close>, and three indices are
  returned.
\<close>

theorem sample_clients_size_counterexample:
  "0 < fraction demo_five_server \<and> fraction demo_five_server \<le> 1 \<and>
   num_clients demo_five_server = 5 \<and>
   max \<lfloor>fraction demo_five_server * real (num_clients demo_five_server)\<rfloor> 1 = 2 \<and>
   sample_clients demo_round demo_five_server [3, 1, 4, 0, 2] = Inr [1, 3, 4]"
  by (simp add: demo_five_server_def sample_clients_def random_choice_def py_int_def
      demo_round_def round_to_def round_def upt_conv_Cons)

section \<open>No registered client\<close>

lemma sample_clients_empty:
  assumes "clients s = []"
  shows "sample_clients rnd s perm = Inl ValueError"
  using assms by (simp add: sample_clients_def random_choice_def Let_def)

lemma train_federated_model_empty:
  assumes "clients s = []"
  shows "train_federated_model rnd client_fit perm s = Inl ValueError"
  using sample_clients_empty [OF assms] by (simp add: train_federated_model_def)

text \<open>
  Claim C6, as the code has it. With no registered client, \<open>sample_clients\<close> fails for
  every fraction and every draw with the \<^verbatim>\<open>ValueError\<close> numpy raises for an empty
  population; so does a round, before anything is transmitted, and so does \<open>fit\<close>.
\<close>

theorem no_clients_value_error:
  assumes "clients s = []"
  shows "sample_clients rnd s perm = Inl ValueError \<and>
         train_federated_model rnd client_fit perm s = Inl ValueError \<and>
         fit rnd client_fit evaluate perm_of s = Inl ValueError"
proof -
  have "fit_rounds rnd client_fit evaluate perm_of [0..<num_rounds s] s [] =
          (if num_rounds s = 0 then Inr (s, []) else Inl ValueError)"
  proof (cases "num_rounds s")
    case 0
    then show ?thesis by simp
  next
    case (Suc n)
    have "clients (s\<lparr>round_no := round_no s + 1\<rparr>) = []" using assms by simp
    from train_federated_model_empty [OF this]
    show ?thesis using Suc by (simp add: upt_conv_Cons del: upt_Suc)
  qed
  then have "fit rnd client_fit evaluate perm_of s = Inl ValueError"
    by (simp add: fit_def np_argmax_axis0_def)
  with sample_clients_empty [OF assms] train_federated_model_empty [OF assms]
  show ?thesis by simp
qed

theorem no_clients_value_error_witness:
  "sample_clients demo_round demo_empty_server [] = Inl ValueError \<and>
   train_federated_model demo_round (\<lambda>c. c) [] demo_empty_server = Inl ValueError \<and>
   fit demo_round (\<lambda>c. c) (\<lambda>g d. [0 :: real]) (\<lambda>r. []) demo_empty_server = Inl ValueError"
proof -
  have "clients demo_empty_server = []" by (simp add: demo_empty_server_def)
  from no_clients_value_error [OF this] show ?thesis by blast
qed

text \<open>
  The claim as stated fails: the error is not the design document's
  \<open>InvalidConfiguration\<close>.
\<close>

theorem no_clients_counterexample:
  "num_clients demo_empty_server = 0 \<and>
   sample_clients demo_round demo_empty_server [] \<noteq> Inl InvalidConfiguration"
  by (simp add: demo_empty_server_def sample_clients_def random_choice_def Let_def py_int_def demo_round_def round_to_def)

section \<open>Model setup\<close>

lemma nn_DataParallel [simp]: "nn ''DataParallel'' = Inr (prefix_keys ''module.'')"
  by (simp add: nn_def)

lemma nn_DataParalle [simp]: "nn ''DataParalle'' = Inl AttributeError"
  by (simp add: nn_def)

lemma load_state_dict_error: "load_state_dict cast g new = Inl e \<Longrightarrow> e = RuntimeError"
  by (auto simp: load_state_dict_def split: if_splits)

text \<open>
  Claim C8. \<open>setup_model\<close> asserts that the round counter is \<open>0\<close>: with any other
  counter it raises \<^verbatim>\<open>AssertionError\<close>, whatever its arguments, and returns no
  coordinator; with counter \<open>0\<close> the assertion passes.
\<close>

theorem setup_model_asserts_round_zero:
  "(round_no s \<noteq> 0 \<longrightarrow> setup_model s model_file start_epoch = Inl AssertionError) \<and>
   (round_no s = 0 \<longrightarrow> setup_model s model_file start_epoch \<noteq> Inl AssertionError)"
proof (intro conjI impI)
  assume "round_no s \<noteq> 0"
  then show "setup_model s model_file start_epoch = Inl AssertionError"
    by (simp add: setup_model_def)
next
  assume z: "round_no s = 0"
  show "setup_model s model_file start_epoch \<noteq> Inl AssertionError"
  proof (cases model_file)
    case None
    with z show ?thesis by (simp add: setup_model_def Let_def)
  next
    case (Some loaded)
    let ?m = "prefix_keys ''module.''
                (Sequential (featurizer (ds_bundle s)) (classifier (ds_bundle s)))"
    show ?thesis
    proof (cases "load_state_dict (dtype_cast s) ?m loaded")
      case (Inl e)
      then have "e = RuntimeError" by (rule load_state_dict_error)
      with Inl z Some show ?thesis by (simp add: setup_model_def Let_def)
    next
      case (Inr m')
      with z Some show ?thesis by (simp add: setup_model_def Let_def)
    qed
  qed
qed

theorem setup_model_asserts_round_zero_witness:
  "setup_model (demo_server\<lparr>round_no := 1\<rparr>) None 0 = Inl AssertionError \<and>
   setup_model demo_server None 0 \<noteq> Inl AssertionError \<and>
   setup_model demo_server None 0 =
     Inr (demo_server\<lparr>model := Some [(''module.0.w'', 0), (''module.1.b'', 0)]\<rparr>)"
proof -
  have a: "round_no (demo_server\<lparr>round_no := 1\<rparr>) \<noteq> 0" by simp
  have b: "round_no demo_server = 0" by (simp add: demo_server_def)
  have c: "setup_model demo_server None 0 =
     Inr (demo_server\<lparr>model := Some [(''module.0.w'', 0), (''module.1.b'', 0)]\<rparr>)"
    by (simp add: setup_model_def demo_server_def Let_def Sequential_def prefix_keys_def)
  from setup_model_asserts_round_zero [of "demo_server\<lparr>round_no := 1\<rparr>" None 0]
    setup_model_asserts_round_zero [of demo_server None 0] a b c
  show ?thesis by simp
qed

section \<open>The dual-model coordinator\<close>

text \<open>
  Claim C10. \<open>adg_setup_model\<close> returns no coordinator for any input: when the
  assertion on the round counter passes, the lookup of \<^verbatim>\<open>nn.DataParalle\<close> raises
  \<^verbatim>\<open>AttributeError\<close>; otherwise the assertion has already failed.
\<close>

theorem adg_setup_model_always_raises:
  "adg_setup_model s generator0 model_file start_epoch =
     Inl (if round_no s = 0 then AttributeError else AssertionError)"
  by (simp add: adg_setup_model_def)

text \<open>
  Claim C4 does not hold of the code. With three sessions weighted \<open>1/3\<close> each, a
  primary model with the parameter \<open>w\<close> and a generator with the parameter \<open>g\<close>, the
  loop looks the primary key \<open>w\<close> up in the client's generator state and raises
  \<^verbatim>\<open>KeyError\<close>; no mean is computed for either state.
\<close>

theorem adg_aggregate_key_error:
  "adg_aggregate (\<lambda>k v. v) (\<lambda>k v. v) (Some [(''w'', 0)]) (Some [(''g'', 0)]) demo_adg_clients
     [0, 1, 2] [1/3, 1/3, 1/3] = Inl KeyError"
  by (simp add: adg_aggregate_def demo_adg_clients_def list_getitem_def norm_index_def
      getitem_def keys_def)

section \<open>Mixing coefficients\<close>

lemma norm_index_nonneg:
  "0 \<le> i \<Longrightarrow> i < int n \<Longrightarrow> norm_index n i = Some (nat i)"
  by (simp add: norm_index_def)

lemma list_getitem_nonneg:
  "0 \<le> i \<Longrightarrow> i < int (length xs) \<Longrightarrow> list_getitem xs i = Inr (xs ! nat i)"
  by (simp add: list_getitem_def norm_index_nonneg)

lemma update_clients_loop_total:
  assumes "distinct idxs"
    and "\<forall>i\<in>set idxs. 0 \<le> i \<and> i < int (length cs)"
  shows "\<exists>cs'. update_clients_loop client_fit cs idxs tsize =
                 Inr (cs', tsize + (\<Sum>idx\<leftarrow>idxs. client_len (cs' ! nat idx))) \<and>
               length cs' = length cs \<and>
               (\<forall>j. int j \<notin> set idxs \<longrightarrow> cs' ! j = cs ! j)"
  using assms
proof (induction idxs arbitrary: cs tsize)
  case Nil
  then show ?case by simp
next
  case (Cons idx rest)
  let ?j = "nat idx"
  let ?cs1 = "cs[?j := client_fit (cs ! ?j)]"
  from Cons.prems(2) have idx: "0 \<le> idx" "idx < int (length cs)" by simp_all
  then have ni: "norm_index (length cs) idx = Some ?j" by (rule norm_index_nonneg)
  have d: "distinct rest" and notin: "idx \<notin> set rest" using Cons.prems(1) by simp_all
  have r: "\<forall>i\<in>set rest. 0 \<le> i \<and> i < int (length ?cs1)" using Cons.prems(2) by simp
  from Cons.IH [OF d r, of "tsize + client_len (?cs1 ! ?j)"]
  obtain cs' where run: "update_clients_loop client_fit ?cs1 rest (tsize + client_len (?cs1 ! ?j)) =
        Inr (cs', tsize + client_len (?cs1 ! ?j) + (\<Sum>i\<leftarrow>rest. client_len (cs' ! nat i)))"
    and len: "length cs' = length ?cs1"
    and frame: "\<forall>j. int j \<notin> set rest \<longrightarrow> cs' ! j = ?cs1 ! j"
    by blast
  have "int ?j \<notin> set rest" using idx(1) notin by simp
  with frame have same: "cs' ! ?j = ?cs1 ! ?j" by blast
  have "update_clients_loop client_fit cs (idx # rest) tsize =
        Inr (cs', tsize + (\<Sum>i\<leftarrow>idx # rest. client_len (cs' ! nat i)))"
    using ni run same by (simp add: Let_def add.assoc)
  moreover have "length cs' = length cs" using len by simp
  moreover have "\<forall>j. int j \<notin> set (idx # rest) \<longrightarrow> cs' ! j = cs ! j"
  proof (intro allI impI)
    fix j
    assume j: "int j \<notin> set (idx # rest)"
    then have "int j \<notin> set rest" and "j \<noteq> ?j" using idx(1) by auto
    with frame show "cs' ! j = cs ! j" by simp
  qed
  ultimately show ?case by blast
qed

lemma mixing_coefficients_positive:
  assumes "0 < tsize"
    and "\<forall>i\<in>set idxs. 0 \<le> i \<and> i < int (length cs)"
  shows "mixing_coefficients cs tsize idxs =
           Inr (map (\<lambda>idx. real (client_len (cs ! nat idx)) / real tsize) idxs)"
  using assms(2)
proof (induction idxs)
  case Nil
  then show ?case by simp
next
  case (Cons idx rest)
  then have "list_getitem cs idx = Inr (cs ! nat idx)"
    by (simp add: list_getitem_nonneg)
  with Cons assms(1) show ?case by simp
qed

lemma mixing_coefficients_zero:
  assumes "idxs \<noteq> []"
    and "\<forall>i\<in>set idxs. 0 \<le> i \<and> i < int (length cs)"
  shows "mixing_coefficients cs 0 idxs = Inl ZeroDivisionError"
proof (cases idxs)
  case Nil
  with assms(1) show ?thesis by simp
next
  case (Cons idx rest)
  with assms(2) have "list_getitem cs idx = Inr (cs ! nat idx)"
    by (simp add: list_getitem_nonneg)
  with Cons show ?thesis by simp
qed

lemma sum_list_quotients:
  fixes f :: "'b \<Rightarrow> nat"
  shows "(\<Sum>x\<leftarrow>xs. real (f x) / real tsize) = real (\<Sum>x\<leftarrow>xs. f x) / real tsize"
  by (induction xs) (simp_all add: add_divide_distrib)

lemma transmit_selected_length:
  "transmit_selected m cs idxs = Inr cs' \<Longrightarrow> length cs' = length cs"
proof (induction idxs arbitrary: cs)
  case Nil
  then show ?case by simp
next
  case (Cons idx rest)
  from Cons.prems obtain j g where j: "norm_index (length cs) idx = Some j" and g: "m = Some g"
    and run: "transmit_selected m (cs[j := update_model (cs ! j) g]) rest = Inr cs'"
    by (cases "norm_index (length cs) idx"; cases m) auto
  from Cons.IH [OF run] show ?case by simp
qed

lemma transmit_model_length:
  assumes "transmit_model s (Some idxs) = Inr s1"
  shows "num_clients s1 = num_clients s"
proof -
  from assms obtain cs' where run: "transmit_selected (model s) (clients s) idxs = Inr cs'"
    and s1: "s1 = s\<lparr>clients := cs', trace := trace s @ [Targeted idxs]\<rparr>"
    by (cases "transmit_selected (model s) (clients s) idxs") (auto simp: transmit_model_def)
  from transmit_selected_length [OF run] s1 show ?thesis by simp
qed

text \<open>
  Claim C3. In a round, let \<open>sampled\<close> be the sample, \<open>s1\<close> the coordinator after the
  transmission and \<open>s2\<close>, \<open>tsize\<close> what \<open>update_clients\<close> returns. Then \<open>tsize\<close> is the
  sum of the sample counts of the sampled clients. If it is positive, the coefficient
  list is, index by index, the client's sample count divided by \<open>tsize\<close>; every
  coefficient is non-negative, they sum to \<open>1\<close>, and the round goes on to aggregate
  with them. If it is zero, computing the coefficients raises \<^verbatim>\<open>ZeroDivisionError\<close>
  and the round ends with that error, before \<open>aggregate\<close> is called. The quotients are
  exact: the rounding of Python's float division is not modelled.
\<close>

theorem mixing_coefficients_normalised:
  assumes "is_permutation (num_clients s) perm"
    and "sample_clients rnd s perm = Inr sampled"
    and "transmit_model s (Some sampled) = Inr s1"
    and "update_clients client_fit s1 sampled = Inr (s2, tsize)"
  shows "tsize = (\<Sum>idx\<leftarrow>sampled. client_len (clients s2 ! nat idx)) \<and>
         (if 0 < tsize
          then \<exists>coefs. mixing_coefficients (clients s2) tsize sampled = Inr coefs \<and>
                 coefs = map (\<lambda>idx. real (client_len (clients s2 ! nat idx)) / real tsize) sampled \<and>
                 (\<forall>c\<in>set coefs. 0 \<le> c) \<and> sum_list coefs = 1 \<and>
                 train_federated_model rnd client_fit perm s = aggregate s2 sampled coefs
          else mixing_coefficients (clients s2) tsize sampled = Inl ZeroDivisionError \<and>
               train_federated_model rnd client_fit perm s = Inl ZeroDivisionError)"
proof -
  note p = sample_clients_sorted [OF assms(1,2)]
  have d: "distinct sampled" using p(1) by (simp add: strict_sorted_iff)
  have r1: "\<forall>i\<in>set sampled. 0 \<le> i \<and> i < int (num_clients s1)"
    using p(2) transmit_model_length [OF assms(3)] by simp
  from update_clients_loop_total [OF d r1, of client_fit 0]
  obtain cs' where run: "update_clients_loop client_fit (clients s1) sampled 0 =
        Inr (cs', (\<Sum>idx\<leftarrow>sampled. client_len (cs' ! nat idx)))"
    and len: "length cs' = num_clients s1"
    by auto
  from assms(4) run have s2: "s2 = s1\<lparr>clients := cs'\<rparr>"
    and tsize: "tsize = (\<Sum>idx\<leftarrow>sampled. client_len (cs' ! nat idx))"
    by (simp_all add: update_clients_def)
  have cs2: "clients s2 = cs'" using s2 by simp
  have r2: "\<forall>i\<in>set sampled. 0 \<le> i \<and> i < int (length (clients s2))"
    using r1 len cs2 by simp
  have train: "train_federated_model rnd client_fit perm s =
      ebind (mixing_coefficients (clients s2) tsize sampled) (aggregate s2 sampled)"
    using assms(2,3,4) by (simp add: train_federated_model_def)
  have t: "tsize = (\<Sum>idx\<leftarrow>sampled. client_len (clients s2 ! nat idx))"
    using tsize cs2 by simp
  show ?thesis
  proof (cases "0 < tsize")
    case True
    let ?coefs = "map (\<lambda>idx. real (client_len (clients s2 ! nat idx)) / real tsize) sampled"
    have m: "mixing_coefficients (clients s2) tsize sampled = Inr ?coefs"
      by (rule mixing_coefficients_positive [OF True r2])
    have nonneg: "\<forall>c\<in>set ?coefs. 0 \<le> c" by auto
    have "sum_list ?coefs = real (\<Sum>idx\<leftarrow>sampled. client_len (clients s2 ! nat idx)) / real tsize"
      by (rule sum_list_quotients)
    also have "\<dots> = real tsize / real tsize" by (simp only: t [symmetric])
    also have "\<dots> = 1" using True by simp
    finally have one: "sum_list ?coefs = 1" .
    have "train_federated_model rnd client_fit perm s = aggregate s2 sampled ?coefs"
      using train m by simp
    with m nonneg one True t show ?thesis by simp
  next
    case False
    then have z: "tsize = 0" by simp
    have "mixing_coefficients (clients s2) tsize sampled = Inl ZeroDivisionError"
      unfolding z by (rule mixing_coefficients_zero [OF p(3) r2])
    with train False t show ?thesis by simp
  qed
qed

theorem mixing_coefficients_normalised_witness:
  "mixing_coefficients (clients demo_updated) 40 [0, 2] = Inr [1/4, 3/4] \<and>
   train_federated_model demo_round demo_fit [2, 0, 3, 1] demo_server
     = aggregate demo_updated [0, 2] [1/4, 3/4] \<and>
   mixing_coefficients (clients demo_idle_updated) 0 [1] = Inl ZeroDivisionError \<and>
   train_federated_model demo_round demo_fit [1, 0] demo_idle_server = Inl ZeroDivisionError"
proof -
  have p: "is_permutation (num_clients demo_server) [2, 0, 3, 1]"
    by (simp add: demo_server_def is_permutation_def upt_conv_Cons)
  have sa: "sample_clients demo_round demo_server [2, 0, 3, 1] = Inr [0, 2]"
    by (simp add: sample_clients_def demo_server_def random_choice_def py_int_def demo_round_def round_to_def upt_conv_Cons)
  have tr: "transmit_model demo_server (Some [0, 2]) = Inr demo_transmitted"
    by (simp add: transmit_model_def demo_server_def demo_transmitted_def norm_index_def
        update_model_def mk_client_def)
  have up: "update_clients demo_fit demo_transmitted [0, 2] = Inr (demo_updated, 40)"
    by (simp add: update_clients_def demo_transmitted_def demo_updated_def demo_server_def
        norm_index_def demo_fit_def mk_client_def Let_def)
  have q: "is_permutation (num_clients demo_idle_server) [1, 0]"
    by (simp add: demo_idle_server_def is_permutation_def upt_conv_Cons)
  have sa': "sample_clients demo_round demo_idle_server [1, 0] = Inr [1]"
    by (simp add: sample_clients_def demo_idle_server_def demo_server_def random_choice_def
        py_int_def demo_round_def round_to_def upt_conv_Cons)
  have tr': "transmit_model demo_idle_server (Some [1]) = Inr demo_idle_transmitted"
    by (simp add: transmit_model_def demo_idle_server_def demo_server_def
        demo_idle_transmitted_def norm_index_def update_model_def mk_client_def)
  have up': "update_clients demo_fit demo_idle_transmitted [1] = Inr (demo_idle_updated, 0)"
    by (simp add: update_clients_def demo_idle_transmitted_def demo_idle_updated_def
        demo_server_def norm_index_def demo_fit_def mk_client_def Let_def)
  have v: "map (\<lambda>idx. real (client_len (clients demo_updated ! nat idx)) / real 40) [0, 2]
            = [1/4, 3/4]"
    by (simp add: demo_updated_def mk_client_def)
  from mixing_coefficients_normalised [OF p sa tr up]
    mixing_coefficients_normalised [OF q sa' tr' up'] v
  show ?thesis by simp
qed

section \<open>The whole run\<close>

lemma ebind_eq_Inr: "ebind r f = Inr y \<longleftrightarrow> (\<exists>x. r = Inr x \<and> f x = Inr y)"
  by (cases r) simp_all

lemma demo_rounds:
  "fit_rounds demo_round demo_fit demo_evaluate demo_perm_of [0..<num_rounds demo_two_rounds]
     demo_two_rounds [] = Inr (demo_after_rounds, [[0, 1, 2, 3], [0, 2, 4, 6]])"
  by (simp add: demo_two_rounds_def demo_after_rounds_def demo_server_def upt_conv_Cons
      train_federated_model_def sample_clients_def random_choice_def py_int_def demo_round_def round_to_def
      demo_perm_of_def transmit_model_def norm_index_def update_model_def mk_client_def
      update_clients_def demo_fit_def Let_def list_getitem_def aggregate_def getitem_def
      keys_def load_state_dict_def demo_evaluate_def save_model_def)


lemma aggregate_Inr:
  assumes "aggregate s idxs coefs = Inr s'"
  shows "\<exists>g'. s' = s\<lparr>model := Some g'\<rparr>"
  using assms by (auto simp: aggregate_def ebind_eq_Inr)

lemma transmit_model_Inr:
  assumes "transmit_model s (Some idxs) = Inr s1"
  shows "\<exists>cs. s1 = s\<lparr>clients := cs, trace := trace s @ [Targeted idxs]\<rparr>"
  using assms by (auto simp: transmit_model_def ebind_eq_Inr)

lemma update_clients_Inr:
  assumes "update_clients client_fit s idxs = Inr (s2, tsize)"
  shows "\<exists>cs. s2 = s\<lparr>clients := cs\<rparr>"
  using assms by (auto simp: update_clients_def ebind_eq_Inr)

lemma train_federated_model_Inr:
  assumes "train_federated_model rnd client_fit perm s = Inr s'"
  shows "\<exists>cs g' sampled. s' = s\<lparr>clients := cs, model := Some g',
                                    trace := trace s @ [Targeted sampled]\<rparr>"
proof -
  from assms obtain sampled s1 s2 tsize coefs
    where tr: "transmit_model s (Some sampled) = Inr s1"
      and up: "update_clients client_fit s1 sampled = Inr (s2, tsize)"
      and ag: "aggregate s2 sampled coefs = Inr s'"
    by (auto simp: train_federated_model_def ebind_eq_Inr)
  from transmit_model_Inr [OF tr] obtain cs1
    where s1: "s1 = s\<lparr>clients := cs1, trace := trace s @ [Targeted sampled]\<rparr>" by blast
  from update_clients_Inr [OF up] obtain cs2 where s2: "s2 = s1\<lparr>clients := cs2\<rparr>" by blast
  from aggregate_Inr [OF ag] obtain g' where "s' = s2\<lparr>model := Some g'\<rparr>" by blast
  with s1 s2 have "s' = s\<lparr>clients := cs2, model := Some g',
                            trace := trace s @ [Targeted sampled]\<rparr>"
    by simp
  then show ?thesis by blast
qed

lemma evaluate_testsets_Inr:
  assumes "evaluate_testsets evaluate m tds = Inr row"
    and "m = Some g"
  shows "row = map (\<lambda>(name, d). last (evaluate g d)) tds"
  using assms
proof (induction tds arbitrary: row)
  case Nil
  then show ?case by simp
next
  case (Cons td rest)
  obtain name d where td: "td = (name, d)" by (cases td)
  from Cons.prems td obtain row' where run: "evaluate_testsets evaluate m rest = Inr row'"
    and row: "row = last (evaluate g d) # row'"
    by (auto simp: Let_def ebind_eq_Inr split: if_splits)
  from Cons.IH [OF run Cons.prems(2)] row td show ?case by simp
qed

lemma save_model_Inr:
  assumes "save_model s r = Inr s'"
  shows "s' = s\<lparr>trace := trace s @ [Checkpoint r]\<rparr>"
  using assms by (auto simp: save_model_def ebind_eq_Inr)

text \<open>What the rounds leave behind, whenever all of them complete.\<close>

lemma fit_rounds_Inr:
  assumes "fit_rounds rnd client_fit evaluate perm_of rs s km = Inr (s', km')"
  shows "test_dataloader s' = test_dataloader s \<and>
         filter (\<lambda>e. e = Broadcast) (trace s') = filter (\<lambda>e. e = Broadcast) (trace s) \<and>
         round_no s' = round_no s + int (length rs) \<and>
         (rs \<noteq> [] \<longrightarrow> model s' \<noteq> None) \<and>
         (\<exists>rows. km' = km @ rows \<and> length rows = length rs \<and>
           (\<forall>row\<in>set rows. \<exists>g. row = map (\<lambda>(name, d). last (evaluate g d)) (test_dataloader s)))"
  using assms
proof (induction rs arbitrary: s km)
  case Nil
  then show ?case by simp
next
  case (Cons r rest)
  let ?s0 = "s\<lparr>round_no := round_no s + 1\<rparr>"
  from Cons.prems obtain s1 row s2
    where tr: "train_federated_model rnd client_fit (perm_of r) ?s0 = Inr s1"
      and ev: "evaluate_testsets evaluate (model s1) (test_dataloader s1) = Inr row"
      and sv: "save_model s1 r = Inr s2"
      and rec: "fit_rounds rnd client_fit evaluate perm_of rest s2 (km @ [row]) = Inr (s', km')"
    by (auto simp: ebind_eq_Inr)
  from train_federated_model_Inr [OF tr] obtain cs g' sampled
    where s1: "s1 = ?s0\<lparr>clients := cs, model := Some g',
                          trace := trace ?s0 @ [Targeted sampled]\<rparr>"
    by blast
  from save_model_Inr [OF sv] have s2: "s2 = s1\<lparr>trace := trace s1 @ [Checkpoint r]\<rparr>" .
  have td2: "test_dataloader s2 = test_dataloader s" using s1 s2 by simp
  have tr2: "filter (\<lambda>e. e = Broadcast) (trace s2) = filter (\<lambda>e. e = Broadcast) (trace s)"
    using s1 s2 by simp
  have rn2: "round_no s2 = round_no s + 1" using s1 s2 by simp
  have m2: "model s2 = Some g'" using s1 s2 by simp
  have m1: "model s1 = Some g'" using s1 by simp
  have row: "row = map (\<lambda>(name, d). last (evaluate g' d)) (test_dataloader s)"
    using evaluate_testsets_Inr [OF ev m1] s1 by simp
  note ih = Cons.IH [OF rec]
  have a: "test_dataloader s' = test_dataloader s"
    using ih td2 by simp
  have b: "filter (\<lambda>e. e = Broadcast) (trace s') = filter (\<lambda>e. e = Broadcast) (trace s)"
    using ih tr2 by simp
  have c: "round_no s' = round_no s + int (length (r # rest))"
    using ih rn2 by simp
  have d: "model s' \<noteq> None"
  proof (cases rest)
    case Nil
    with rec m2 show ?thesis by simp
  next
    case (Cons r' rest')
    with ih show ?thesis by simp
  qed
  from ih obtain rows where rows: "km' = (km @ [row]) @ rows"
    and len: "length rows = length rest"
    and each: "\<forall>x\<in>set rows. \<exists>g. x = map (\<lambda>(name, d). last (evaluate g d)) (test_dataloader s2)"
    by blast
  have e: "\<exists>rows. km' = km @ rows \<and> length rows = length (r # rest) \<and>
         (\<forall>x\<in>set rows. \<exists>g. x = map (\<lambda>(name, d). last (evaluate g d)) (test_dataloader s))"
  proof (intro exI conjI)
    show "km' = km @ (row # rows)" using rows by simp
    show "length (row # rows) = length (r # rest)" using len by simp
    show "\<forall>x\<in>set (row # rows). \<exists>g. x = map (\<lambda>(name, d). last (evaluate g d)) (test_dataloader s)"
      using each row td2 by auto
  qed
  from a b c d e show ?case by blast
qed


lemma demo_one_loader_rounds:
  "fit_rounds demo_round demo_fit demo_evaluate demo_perm_of [0..<num_rounds demo_one_loader]
     demo_one_loader [] = Inr (demo_one_loader_after, [[1]])"
  by (simp add: demo_one_loader_def demo_one_loader_after_def demo_server_def upt_conv_Cons
      train_federated_model_def sample_clients_def random_choice_def py_int_def demo_round_def round_to_def
      demo_perm_of_def transmit_model_def norm_index_def update_model_def mk_client_def
      update_clients_def demo_fit_def Let_def list_getitem_def aggregate_def getitem_def
      keys_def load_state_dict_def demo_evaluate_def save_model_def)

lemma transmit_all_Some:
  "transmit_all (Some g) cs = Inr (map (\<lambda>c. update_model c g) cs)"
  by (induction cs) simp_all

lemma takeWhile_stops:
  "\<exists>x\<in>set xs. \<not> P x \<Longrightarrow> length (takeWhile P xs) < length xs"
  by (induction xs) auto

lemma argmax_first_maximum:
  fixes xs :: "'v::linorder list"
  assumes "xs \<noteq> []"
  shows "argmax xs < length xs"
    and "\<forall>r<length xs. xs ! r \<le> xs ! argmax xs"
    and "\<forall>r<argmax xs. xs ! r < xs ! argmax xs"
proof -
  let ?P = "\<lambda>x. x \<noteq> Max (set xs)"
  have "Max (set xs) \<in> set xs" using assms by (simp add: Max_in)
  then have "\<exists>x\<in>set xs. \<not> ?P x" by blast
  then have lt: "length (takeWhile ?P xs) < length xs"
    by (rule takeWhile_stops)
  then show "argmax xs < length xs" by (simp add: argmax_def)
  from nth_length_takeWhile [OF lt] have mx: "xs ! argmax xs = Max (set xs)"
    by (simp add: argmax_def)
  show "\<forall>r<length xs. xs ! r \<le> xs ! argmax xs"
    unfolding mx by simp
  show "\<forall>r<argmax xs. xs ! r < xs ! argmax xs"
  proof (intro allI impI)
    fix r
    assume r: "r < argmax xs"
    then have r': "r < length (takeWhile ?P xs)" by (simp add: argmax_def)
    then have "takeWhile ?P xs ! r \<in> set (takeWhile ?P xs)" by (rule nth_mem)
    then have "?P (takeWhile ?P xs ! r)" by (rule set_takeWhileD [THEN conjunct2])
    then have ne: "xs ! r \<noteq> Max (set xs)" using r' by (simp add: takeWhile_nth)
    have "r < length xs" using r' lt by simp
    then have "xs ! r \<le> Max (set xs)" by simp
    with ne show "xs ! r < xs ! argmax xs" unfolding mx by simp
  qed
qed

lemma column_nth: "r < length rows \<Longrightarrow> column rows j ! r = rows ! r ! j"
  by (simp add: column_def)

lemma unpack_other:
  "length best \<noteq> 4 \<Longrightarrow>
     (case best of [a, b, c, d] \<Rightarrow> f a b | _ \<Rightarrow> e) = e"
  by (auto split: list.splits)

text \<open>
  Claim C9, as the code has it. Suppose all configured rounds, at least one, complete.
  With exactly four holdout loaders, \<open>fit\<close> takes for each loader the first round at
  which the loader's last-listed metric value is largest, prints the third and the
  fourth loader's values at the best round of the first loader and the fourth
  loader's value at the best round of the second, and then transmits the last global
  state to every registered client; that broadcast is the only one of the run. With
  any other number of loaders \<open>fit\<close> raises \<^verbatim>\<open>ValueError\<close> after the rounds and
  transmits nothing more.
\<close>

theorem fit_final_broadcast:
  fixes evaluate :: "real state_dict \<Rightarrow> 'd \<Rightarrow> 'v::linorder list"
  assumes "fit_rounds rnd client_fit evaluate perm_of [0..<num_rounds s] s [] = Inr (s1, key_metric)"
    and "0 < num_rounds s"
  shows "if length (test_dataloader s) = 4
         then \<exists>g. model s1 = Some g \<and>
                fit rnd client_fit evaluate perm_of s =
                  Inr (s1\<lparr>clients := map (\<lambda>c. update_model c g) (clients s1),
                          trace := trace s1 @ [Broadcast]\<rparr>,
                       key_metric ! argmax (column key_metric 0) ! 2,
                       key_metric ! argmax (column key_metric 0) ! 3,
                       key_metric ! argmax (column key_metric 1) ! 3) \<and>
                filter (\<lambda>e. e = Broadcast) (trace s1) = filter (\<lambda>e. e = Broadcast) (trace s) \<and>
                length key_metric = num_rounds s \<and>
                (\<forall>r<num_rounds s. \<exists>g. key_metric ! r =
                    map (\<lambda>(name, d). last (evaluate g d)) (test_dataloader s)) \<and>
                (\<forall>j<4. argmax (column key_metric j) < num_rounds s \<and>
                   (\<forall>r<num_rounds s.
                      key_metric ! r ! j \<le> key_metric ! argmax (column key_metric j) ! j) \<and>
                   (\<forall>r<argmax (column key_metric j).
                      key_metric ! r ! j < key_metric ! argmax (column key_metric j) ! j))
         else fit rnd client_fit evaluate perm_of s = Inl ValueError"
proof -
  let ?H = "length (test_dataloader s)"
  from fit_rounds_Inr [OF assms(1)] assms(2)
  obtain g where m: "model s1 = Some g"
    and tr: "filter (\<lambda>e. e = Broadcast) (trace s1) = filter (\<lambda>e. e = Broadcast) (trace s)"
    and len: "length key_metric = num_rounds s"
    and rows: "\<forall>row\<in>set key_metric.
                 \<exists>g. row = map (\<lambda>(name, d). last (evaluate g d)) (test_dataloader s)"
    by auto
  from len assms(2) obtain row0 rest where km: "key_metric = row0 # rest"
    by (cases key_metric) auto
  from rows km have "length row0 = ?H" by auto
  with km have best: "np_argmax_axis0 key_metric =
      Inr (map (\<lambda>j. argmax (column key_metric j)) [0..<?H])"
    by (simp add: np_argmax_axis0_def)
  show ?thesis
  proof (cases "?H = 4")
    case False
    then have "length (map (\<lambda>j. argmax (column key_metric j)) [0..<?H]) \<noteq> 4" by simp
    from unpack_other [OF this] have "fit rnd client_fit evaluate perm_of s = Inl ValueError"
      using assms(1) best by (simp add: fit_def)
    with False show ?thesis by simp
  next
    case True
    have four: "[0..<4] = [0, 1, 2, 3]" by (simp add: upt_conv_Cons)
    have bc: "transmit_model s1 None =
        Inr (s1\<lparr>clients := map (\<lambda>c. update_model c g) (clients s1),
                trace := trace s1 @ [Broadcast]\<rparr>)"
      using m by (simp add: transmit_model_def transmit_all_Some)
    have run: "fit rnd client_fit evaluate perm_of s =
        Inr (s1\<lparr>clients := map (\<lambda>c. update_model c g) (clients s1),
                trace := trace s1 @ [Broadcast]\<rparr>,
             key_metric ! argmax (column key_metric 0) ! 2,
             key_metric ! argmax (column key_metric 0) ! 3,
             key_metric ! argmax (column key_metric 1) ! 3)"
      using assms(1) best True bc by (simp add: fit_def four Let_def)
    have each: "\<forall>r<num_rounds s. \<exists>g. key_metric ! r =
                    map (\<lambda>(name, d). last (evaluate g d)) (test_dataloader s)"
      using rows len by auto
    have arg: "argmax (column key_metric j) < num_rounds s \<and>
          (\<forall>r<num_rounds s. key_metric ! r ! j \<le> key_metric ! argmax (column key_metric j) ! j) \<and>
          (\<forall>r<argmax (column key_metric j).
              key_metric ! r ! j < key_metric ! argmax (column key_metric j) ! j)" for j
    proof -
      let ?c = "column key_metric j"
      have cl: "length ?c = num_rounds s" using len by (simp add: column_def)
      then have ne: "?c \<noteq> []" using assms(2) by auto
      note a = argmax_first_maximum [OF ne]
      have lt: "argmax ?c < num_rounds s" using a(1) cl by simp
      have nth: "?c ! r = key_metric ! r ! j" if "r < num_rounds s" for r
        using that len by (simp add: column_nth)
      have "\<forall>r<num_rounds s. key_metric ! r ! j \<le> key_metric ! argmax ?c ! j"
        using a(2) cl nth lt by auto
      moreover have "\<forall>r<argmax ?c. key_metric ! r ! j < key_metric ! argmax ?c ! j"
      proof (intro allI impI)
        fix r
        assume r: "r < argmax ?c"
        with a(3) have "?c ! r < ?c ! argmax ?c" by blast
        moreover have "r < num_rounds s" using r lt by simp
        ultimately show "key_metric ! r ! j < key_metric ! argmax ?c ! j"
          using nth lt by simp
      qed
      ultimately show ?thesis using lt by blast
    qed
    from m run tr len each arg True show ?thesis by simp
  qed
qed

theorem fit_final_broadcast_witness:
  "fit demo_round demo_fit demo_evaluate demo_perm_of demo_two_rounds =
     Inr (demo_after_rounds\<lparr>
            clients := [mk_client 2 2 10, mk_client 2 2 20, mk_client 2 2 30, mk_client 2 2 40],
            trace := [Targeted [0, 2], Checkpoint 0, Targeted [1, 3], Checkpoint 1, Broadcast]\<rparr>,
          2, 3, 6) \<and>
   fit demo_round demo_fit demo_evaluate demo_perm_of demo_one_loader = Inl ValueError"
proof -
  have n: "0 < num_rounds demo_two_rounds" by (simp add: demo_two_rounds_def)
  have h: "length (test_dataloader demo_two_rounds) = 4"
    by (simp add: demo_two_rounds_def demo_server_def)
  have m: "model demo_after_rounds = Some [(''w'', 2), (''b'', 2)]"
    by (simp add: demo_after_rounds_def)
  have a0: "argmax (column [[0, 1, 2, 3], [0, 2, 4, 6 :: real]] 0) = 0"
    by (simp add: argmax_def column_def)
  have a1: "argmax (column [[0, 1, 2, 3], [0, 2, 4, 6 :: real]] 1) = 1"
    by (simp add: argmax_def column_def)
  have c: "map (\<lambda>c. update_model c [(''w'', 2), (''b'', 2)]) (clients demo_after_rounds) =
      [mk_client 2 2 10, mk_client 2 2 20, mk_client 2 2 30, mk_client 2 2 40]"
    by (simp add: demo_after_rounds_def update_model_def mk_client_def)
  have t: "trace demo_after_rounds @ [Broadcast] =
      [Targeted [0, 2], Checkpoint 0, Targeted [1, 3], Checkpoint 1, Broadcast]"
    by (simp add: demo_after_rounds_def)
  have n': "0 < num_rounds demo_one_loader" by (simp add: demo_one_loader_def demo_server_def)
  have h': "length (test_dataloader demo_one_loader) \<noteq> 4"
    by (simp add: demo_one_loader_def)
  from fit_final_broadcast [OF demo_rounds n] fit_final_broadcast [OF demo_one_loader_rounds n']
    h h' m a0 a1 c t
  show ?thesis by simp
qed

text \<open>
  The claim as stated fails: with one holdout loader the configured round completes,
  and \<open>fit\<close> then raises instead of broadcasting and reporting.
\<close>

theorem fit_unpack_counterexample:
  "\<not> isl (fit_rounds demo_round demo_fit demo_evaluate demo_perm_of [0..<num_rounds demo_one_loader]
            demo_one_loader ([] :: real list list)) \<and>
   fit demo_round demo_fit demo_evaluate demo_perm_of demo_one_loader = Inl ValueError"
  by (simp add: fit_def np_argmax_axis0_def demo_one_loader_def demo_server_def upt_conv_Cons
      train_federated_model_def sample_clients_def random_choice_def py_int_def demo_round_def round_to_def
      demo_perm_of_def transmit_model_def norm_index_def update_model_def mk_client_def
      update_clients_def demo_fit_def Let_def list_getitem_def aggregate_def getitem_def
      keys_def load_state_dict_def demo_evaluate_def save_model_def)

end
